theory Spec2Isabelle
  imports Complex_Main "HOL-Library.AList" "HOL-Library.Multiset"
begin

section \<open>Orders and trades (core/order\_types.py)\<close>

text \<open>
  Prices and timestamps are Python floats in the source. The model takes them as exact
  rationals: comparisons, sums and the one division of the circuit breaker are then the
  mathematical ones, and rounding error of the float arithmetic is outside the model.
  Quantities are Python's unbounded integers. Order identifiers are strings.
\<close>

datatype OrderType = LIMIT | MARKET | IOC | STOP_LOSS | STOP_LOSS_MARKET | FOK | ICEBERG

datatype OrderSide = BUY | SELL

datatype OrderValidity = DAY | IOC_VALIDITY | GTC | GTD

datatype TradingPhase = PRE_OPEN | OPENING | CONTINUOUS | CLOSING | POST_CLOSE | HALTED

datatype MarketRegime = NORMAL | HIGH_VOLATILITY | ILLIQUID | DIRECTIONAL | HIGH_FREQUENCY

record Order =
  order_id :: string
  side :: OrderSide
  price :: rat
  quantity :: int
  timestamp :: rat
  order_type :: OrderType
  filled_quantity :: int
  stop_price :: "rat option"
  disclosed_quantity :: "int option"
  validity :: OrderValidity
  expiry_time :: "rat option"
  is_triggered :: bool

text \<open>
  The dataclass constructor \<open>Order(order_id, side, price, quantity, timestamp, order_type)\<close>
  with the defaults of the remaining fields, and the checks of \<open>__post_init__\<close> as a
  predicate (true when the constructor raises no \<open>ValueError\<close>).
\<close>

definition new_order :: "string \<Rightarrow> OrderSide \<Rightarrow> rat \<Rightarrow> int \<Rightarrow> rat \<Rightarrow> OrderType \<Rightarrow> Order" where
  "new_order oid sd p q t ty =
     \<lparr>order_id = oid, side = sd, price = p, quantity = q, timestamp = t, order_type = ty,
      filled_quantity = 0, stop_price = None, disclosed_quantity = None, validity = DAY,
      expiry_time = None, is_triggered = False\<rparr>"

definition post_init_ok :: "Order \<Rightarrow> bool" where
  "post_init_ok ord =
     (\<not> quantity ord \<le> 0
      \<and> \<not> (price ord \<le> 0 \<and> order_type ord \<in> {LIMIT, STOP_LOSS})
      \<and> \<not> (order_type ord \<in> {STOP_LOSS, STOP_LOSS_MARKET}
           \<and> (case stop_price ord of None \<Rightarrow> True | Some sp \<Rightarrow> sp \<le> 0))
      \<and> \<not> (order_type ord = ICEBERG
           \<and> (case disclosed_quantity ord of None \<Rightarrow> True | Some d \<Rightarrow> d \<le> 0)))"

definition remaining_quantity :: "Order \<Rightarrow> int" where
  "remaining_quantity ord = quantity ord - filled_quantity ord"

definition visible_quantity :: "Order \<Rightarrow> int" where
  "visible_quantity ord =
     (case disclosed_quantity ord of
        Some d \<Rightarrow> if order_type ord = ICEBERG \<and> d \<noteq> 0 then min d (remaining_quantity ord)
                  else remaining_quantity ord
      | None \<Rightarrow> remaining_quantity ord)"

definition is_expired :: "Order \<Rightarrow> rat \<Rightarrow> bool" where
  "is_expired ord current_time =
     (if validity ord = DAY then False
      else case expiry_time ord of
             Some e \<Rightarrow> if validity ord = GTD \<and> e \<noteq> 0 then current_time > e else False
           | None \<Rightarrow> False)"

text \<open>
  A trade. The source also stores a trade id (a fresh UUID, or a counter string in the
  exchange engine) and a wall-clock timestamp; neither is read by any code modelled here
  and both are left out.
\<close>

record Trade =
  buy_order_id :: string
  sell_order_id :: string
  trade_price :: rat
  trade_quantity :: int

definition create_trade :: "Order \<Rightarrow> Order \<Rightarrow> int \<Rightarrow> Trade" where
  "create_trade buy_order sell_order qty =
     (let tp = (if order_type buy_order = MARKET then price sell_order
                else if order_type sell_order = MARKET then price buy_order
                else price sell_order)
      in \<lparr>buy_order_id = order_id buy_order, sell_order_id = order_id sell_order,
          trade_price = tp, trade_quantity = qty\<rparr>)"

section \<open>Price levels and book sides (core/order\_book.py)\<close>

text \<open>
  A price level holds its orders in a deque; the model keeps the deque as a list, first
  element at the front. \<open>deque.remove(order)\<close> deletes the first element equal to
  \<open>order\<close> (dataclass equality compares the fields) and raises when there is none,
  which \<open>PriceLevel.remove_order\<close> turns into the result \<open>False\<close>.
\<close>

record PriceLevel =
  level_price :: rat
  orders :: "Order list"
  total_volume :: int

definition new_PriceLevel :: "rat \<Rightarrow> PriceLevel" where
  "new_PriceLevel p = \<lparr>level_price = p, orders = [], total_volume = 0\<rparr>"

definition PriceLevel_add_order :: "Order \<Rightarrow> PriceLevel \<Rightarrow> PriceLevel" where
  "PriceLevel_add_order ord lvl =
     lvl\<lparr>orders := orders lvl @ [ord],
         total_volume := total_volume lvl + remaining_quantity ord\<rparr>"

definition PriceLevel_remove_order :: "Order \<Rightarrow> PriceLevel \<Rightarrow> bool \<times> PriceLevel" where
  "PriceLevel_remove_order ord lvl =
     (if ord \<in> set (orders lvl)
      then (True, lvl\<lparr>orders := remove1 ord (orders lvl),
                       total_volume := total_volume lvl - remaining_quantity ord\<rparr>)
      else (False, lvl))"

definition get_top_order :: "PriceLevel \<Rightarrow> Order option" where
  "get_top_order lvl = (case orders lvl of [] \<Rightarrow> None | ord # _ \<Rightarrow> Some ord)"

definition is_empty :: "PriceLevel \<Rightarrow> bool" where
  "is_empty lvl = (length (orders lvl) = 0)"

text \<open>
  One side of the book. The dictionaries \<open>price_levels\<close> is an association list in
  insertion order (the source iterates over it); \<open>order_map\<close> and
  \<open>order_to_price_level\<close> are only looked up by key and are maps.

  The source keeps the prices in a binary heap (\<open>heapq\<close>; bids are stored negated) and
  reads it only through its least element, by popping it, and by testing emptiness. The
  model keeps the same elements as an ascending list: the least element is the head,
  \<open>heappush\<close> is sorted insertion and \<open>heappop\<close> drops the head.

  Orders and price levels are shared mutable objects in the source. The model holds
  values: \<open>order_to_price_level\<close> names the level by its price key, and a change of a
  resting order's \<open>filled_quantity\<close> is written to every place that refers to the
  object (\<open>mutate_order\<close> below). \<open>self.order_map[order_id]\<close> raises \<open>KeyError\<close> for a
  missing key; a level that is named by \<open>order_to_price_level\<close> but no longer stored
  under its price has no counterpart in the model and stops it with \<open>DetachedLevel\<close>.
\<close>

datatype engine_error = KeyError | IndexError | DetachedLevel | OutOfFuel

record OrderBookSide =
  book_side :: OrderSide
  heap :: "rat list"
  price_levels :: "(rat \<times> PriceLevel) list"
  order_map :: "string \<rightharpoonup> Order"
  order_to_price_level :: "string \<rightharpoonup> rat"

definition new_OrderBookSide :: "OrderSide \<Rightarrow> OrderBookSide" where
  "new_OrderBookSide sd =
     \<lparr>book_side = sd, heap = [], price_levels = [], order_map = Map.empty,
      order_to_price_level = Map.empty\<rparr>"

definition heap_key :: "OrderSide \<Rightarrow> rat \<Rightarrow> rat" where
  "heap_key sd p = (if sd = SELL then p else - p)"

definition heap_push :: "OrderSide \<Rightarrow> rat \<Rightarrow> rat list \<Rightarrow> rat list" where
  "heap_push sd p h = insort (heap_key sd p) h"

definition OrderBookSide_add_order :: "Order \<Rightarrow> OrderBookSide \<Rightarrow> OrderBookSide" where
  "OrderBookSide_add_order ord b =
     (let p = price ord;
          b1 = (case map_of (price_levels b) p of
                  None \<Rightarrow> b\<lparr>price_levels := AList.update p (new_PriceLevel p) (price_levels b),
                             heap := heap_push (book_side b) p (heap b)\<rparr>
                | Some _ \<Rightarrow> b)
      in b1\<lparr>price_levels := AList.map_entry p (PriceLevel_add_order ord) (price_levels b1),
            order_map := (order_map b1)(order_id ord \<mapsto> ord),
            order_to_price_level := (order_to_price_level b1)(order_id ord \<mapsto> p)\<rparr>)"

definition rebuild_heap :: "OrderSide \<Rightarrow> rat list \<Rightarrow> rat list" where
  "rebuild_heap sd keys = fold (heap_push sd) keys []"

definition OrderBookSide_remove_order ::
  "string \<Rightarrow> OrderBookSide \<Rightarrow> engine_error + (bool \<times> OrderBookSide)" where
  "OrderBookSide_remove_order oid b =
     (case order_to_price_level b oid of
        None \<Rightarrow> Inr (False, b)
      | Some p \<Rightarrow>
         (case map_of (price_levels b) p of
            None \<Rightarrow> Inl DetachedLevel
          | Some lvl \<Rightarrow>
             (case order_map b oid of
                None \<Rightarrow> Inl KeyError
              | Some ord \<Rightarrow>
                 (case PriceLevel_remove_order ord lvl of
                    (False, _) \<Rightarrow> Inr (False, b)
                  | (True, lvl') \<Rightarrow>
                     (let b1 = b\<lparr>price_levels := AList.update p lvl' (price_levels b),
                                  order_map := (order_map b)(oid := None),
                                  order_to_price_level := (order_to_price_level b)(oid := None)\<rparr>
                      in if is_empty lvl'
                         then (let pls = AList.delete (level_price lvl') (price_levels b1)
                               in Inr (True, b1\<lparr>price_levels := pls,
                                                heap := rebuild_heap (book_side b) (map fst pls)\<rparr>))
                         else Inr (True, b1))))))"

fun get_best_price_loop ::
  "OrderSide \<Rightarrow> rat list \<Rightarrow> (rat \<times> PriceLevel) list
     \<Rightarrow> rat option \<times> rat list \<times> (rat \<times> PriceLevel) list" where
  "get_best_price_loop sd [] pls = (None, [], pls)"
| "get_best_price_loop sd (h # hs) pls =
     (let best_price = (if sd = SELL then h else - h)
      in case map_of pls best_price of
           Some lvl \<Rightarrow>
             if \<not> is_empty lvl then (Some best_price, h # hs, pls)
             else get_best_price_loop sd hs (AList.delete best_price pls)
         | None \<Rightarrow> get_best_price_loop sd hs pls)"

definition get_best_price :: "OrderBookSide \<Rightarrow> rat option \<times> OrderBookSide" where
  "get_best_price b =
     (case get_best_price_loop (book_side b) (heap b) (price_levels b) of
        (r, h, pls) \<Rightarrow> (r, b\<lparr>heap := h, price_levels := pls\<rparr>))"

definition get_price_level :: "OrderBookSide \<Rightarrow> rat \<Rightarrow> PriceLevel option" where
  "get_price_level b p = map_of (price_levels b) p"

text \<open>
  \<open>mutate_order p i new b\<close>: the order object at position \<open>i\<close> of the level at price
  \<open>p\<close> takes the field values \<open>new\<close>. The object is the one \<open>order_map\<close> holds under
  its id when that entry equals it.
\<close>

definition mutate_order :: "rat \<Rightarrow> nat \<Rightarrow> Order \<Rightarrow> OrderBookSide \<Rightarrow> OrderBookSide" where
  "mutate_order p i new b =
     (case map_of (price_levels b) p of
        None \<Rightarrow> b
      | Some lvl \<Rightarrow>
          if i < length (orders lvl)
          then b\<lparr>price_levels :=
                   AList.map_entry p (\<lambda>l. l\<lparr>orders := (orders l)[i := new]\<rparr>) (price_levels b),
                 order_map :=
                   (if order_map b (order_id new) = Some (orders lvl ! i)
                    then (order_map b)(order_id new \<mapsto> new) else order_map b)\<rparr>
          else b)"

section \<open>The base engine (core/matching\_engine.py)\<close>

text \<open>
  \<open>order_history\<close> holds references to the submitted order objects; the model records
  their ids.
\<close>

record BaseMatchingEngine =
  bids :: OrderBookSide
  asks :: OrderBookSide
  trade_history :: "Trade list"
  order_history :: "string list"

definition new_BaseMatchingEngine :: BaseMatchingEngine where
  "new_BaseMatchingEngine =
     \<lparr>bids = new_OrderBookSide BUY, asks = new_OrderBookSide SELL,
      trade_history = [], order_history = []\<rparr>"

text \<open>
  The loops of \<open>_match_buy_order\<close> and \<open>_match_sell_order\<close>. The two source loops have
  the same text up to the side of the book they read, the direction of the price test and
  the argument order of \<open>create_trade\<close>; the model has that text once, with the three
  places selected by \<open>is_buy\<close>. \<open>match_iteration\<close> is the loop condition and one run of
  the body: it ends the loop (\<open>Break\<close>: the condition is false, or a \<open>break\<close>) or hands
  the next iteration the trades it appended, the incoming order and the book (\<open>Next\<close>).
  The condition and the body call \<open>get_best_price\<close> up to three times in a row; the call
  is idempotent (lemma \<open>get_best_price_idem\<close>), and the model makes it once per
  iteration. The loop has no bound in the source: \<open>match_loop\<close> counts iterations down
  from a fuel argument and stops with \<open>OutOfFuel\<close> at zero.
\<close>

datatype 'b iteration = Break 'b | Next "Trade list" Order 'b

definition match_iteration ::
  "bool \<Rightarrow> Order \<Rightarrow> OrderBookSide \<Rightarrow> engine_error + OrderBookSide iteration" where
  "match_iteration is_buy inc book =
     (if \<not> remaining_quantity inc > 0 then Inr (Break book)
      else case get_best_price book of
        (None, book1) \<Rightarrow> Inr (Break book1)
      | (Some best, book1) \<Rightarrow>
          if \<not> (order_type inc = MARKET
                 \<or> (if is_buy then best \<le> price inc else best \<ge> price inc))
          then Inr (Break book1)
          else case get_price_level book1 best of
            None \<Rightarrow> Inr (Break book1)
          | Some lvl \<Rightarrow>
             (case get_top_order lvl of
                None \<Rightarrow> Inr (Next [] inc (snd (get_best_price book1)))
              | Some resting \<Rightarrow>
                 (let trade_quantity = min (remaining_quantity inc) (remaining_quantity resting);
                      trade = (if is_buy then create_trade inc resting trade_quantity
                               else create_trade resting inc trade_quantity);
                      inc' = inc\<lparr>filled_quantity := filled_quantity inc + trade_quantity\<rparr>;
                      resting' = resting\<lparr>filled_quantity :=
                                            filled_quantity resting + trade_quantity\<rparr>;
                      book2 = mutate_order best 0 resting' book1
                  in if remaining_quantity resting' = 0
                     then case OrderBookSide_remove_order (order_id resting') book2 of
                            Inl e \<Rightarrow> Inl e
                          | Inr (_, book3) \<Rightarrow> Inr (Next [trade] inc' book3)
                     else Inr (Next [trade] inc' book2))))"

fun match_loop ::
  "nat \<Rightarrow> bool \<Rightarrow> Order \<Rightarrow> OrderBookSide \<Rightarrow> Trade list
     \<Rightarrow> engine_error + (Trade list \<times> Order \<times> OrderBookSide)" where
  "match_loop 0 is_buy inc book trades = Inl OutOfFuel"
| "match_loop (Suc n) is_buy inc book trades =
     (case match_iteration is_buy inc book of
        Inl e \<Rightarrow> Inl e
      | Inr (Break book') \<Rightarrow> Inr (trades, inc, book')
      | Inr (Next ts inc' book') \<Rightarrow> match_loop n is_buy inc' book' (trades @ ts))"

definition match_buy_order ::
  "nat \<Rightarrow> Order \<Rightarrow> BaseMatchingEngine
     \<Rightarrow> engine_error + (Trade list \<times> Order \<times> BaseMatchingEngine)" where
  "match_buy_order fuel buy_order e =
     (case match_loop fuel True buy_order (asks e) [] of
        Inl err \<Rightarrow> Inl err
      | Inr (trades, ord, a) \<Rightarrow> Inr (trades, ord, e\<lparr>asks := a\<rparr>))"

definition match_sell_order ::
  "nat \<Rightarrow> Order \<Rightarrow> BaseMatchingEngine
     \<Rightarrow> engine_error + (Trade list \<times> Order \<times> BaseMatchingEngine)" where
  "match_sell_order fuel sell_order e =
     (case match_loop fuel False sell_order (bids e) [] of
        Inl err \<Rightarrow> Inl err
      | Inr (trades, ord, b) \<Rightarrow> Inr (trades, ord, e\<lparr>bids := b\<rparr>))"

definition add_to_order_book :: "Order \<Rightarrow> BaseMatchingEngine \<Rightarrow> BaseMatchingEngine" where
  "add_to_order_book ord e =
     (if side ord = BUY then e\<lparr>bids := OrderBookSide_add_order ord (bids e)\<rparr>
      else e\<lparr>asks := OrderBookSide_add_order ord (asks e)\<rparr>)"

text \<open>
  \<open>add_order\<close> returns the trades; the submitted order object is changed in place, and
  the model returns its final value next to the trades.
\<close>

definition add_order ::
  "nat \<Rightarrow> Order \<Rightarrow> BaseMatchingEngine
     \<Rightarrow> engine_error + (Trade list \<times> Order \<times> BaseMatchingEngine)" where
  "add_order fuel ord e =
     (let e1 = e\<lparr>order_history := order_history e @ [order_id ord]\<rparr>
      in case (if side ord = BUY then match_buy_order fuel ord e1
               else match_sell_order fuel ord e1) of
           Inl err \<Rightarrow> Inl err
         | Inr (trades, ord', e2) \<Rightarrow>
             (let e3 = (if remaining_quantity ord' > 0 \<and> order_type ord' = LIMIT
                        then add_to_order_book ord' e2 else e2)
              in Inr (trades, ord', e3\<lparr>trade_history := trade_history e3 @ trades\<rparr>)))"

definition cancel_order ::
  "string \<Rightarrow> BaseMatchingEngine \<Rightarrow> engine_error + (bool \<times> BaseMatchingEngine)" where
  "cancel_order oid e =
     (if oid \<in> dom (order_map (bids e))
      then case OrderBookSide_remove_order oid (bids e) of
             Inl err \<Rightarrow> Inl err
           | Inr (r, b) \<Rightarrow> Inr (r, e\<lparr>bids := b\<rparr>)
      else if oid \<in> dom (order_map (asks e))
      then case OrderBookSide_remove_order oid (asks e) of
             Inl err \<Rightarrow> Inl err
           | Inr (r, a) \<Rightarrow> Inr (r, e\<lparr>asks := a\<rparr>)
      else Inr (False, e))"


text \<open>Processing a sequence of orders one after the other, as a driver loop
  \<open>for order in orders: engine.add_order(order)\<close> does: the trade list of every call, the
  final value of every submitted order at the time its call returned, and the engine.\<close>

fun process_all ::
  "nat \<Rightarrow> Order list \<Rightarrow> BaseMatchingEngine
     \<Rightarrow> engine_error + (Trade list list \<times> Order list \<times> BaseMatchingEngine)" where
  "process_all fuel [] e = Inr ([], [], e)"
| "process_all fuel (ord # rest) e =
     (case add_order fuel ord e of
        Inl err \<Rightarrow> Inl err
      | Inr (ts, ord', e') \<Rightarrow>
         (case process_all fuel rest e' of
            Inl err \<Rightarrow> Inl err
          | Inr (tss, ords, e'') \<Rightarrow> Inr (ts # tss, ord' # ords, e'')))"

section \<open>The exchange engine (core/nse\_matching\_engine.py)\<close>

text \<open>
  The engine's state. The first four fields are those of the base engine's record and
  have the same meaning (the class is not a subclass of the base engine in the source; it
  declares the same attributes). The cancel queue of the asynchronous mode is a list of
  the ids put on it; the worker thread that drains it is not modelled.
\<close>

record NSEMatchingEngine = BaseMatchingEngine +
  tick_size :: rat
  circuit_breaker_pct :: rat
  price_band_pct :: rat
  trading_phase :: TradingPhase
  is_halted :: bool
  reference_price :: "rat option"
  last_traded_price :: "rat option"
  opening_price :: "rat option"
  upper_band :: "rat option"
  lower_band :: "rat option"
  auction_orders :: "Order list"
  pending_stop_orders :: "(string \<times> Order) list"
  total_orders_processed :: int
  total_trades :: int
  circuit_breaker_hits :: int
  async_cancel :: bool
  cancel_queue :: "string list"

definition new_NSEMatchingEngine :: "rat \<Rightarrow> rat \<Rightarrow> rat \<Rightarrow> bool \<Rightarrow> NSEMatchingEngine" where
  "new_NSEMatchingEngine tick cb band async =
     \<lparr>bids = new_OrderBookSide BUY, asks = new_OrderBookSide SELL,
      trade_history = [], order_history = [],
      tick_size = tick, circuit_breaker_pct = cb, price_band_pct = band,
      trading_phase = CONTINUOUS, is_halted = False,
      reference_price = None, last_traded_price = None, opening_price = None,
      upper_band = None, lower_band = None,
      auction_orders = [], pending_stop_orders = [],
      total_orders_processed = 0, total_trades = 0, circuit_breaker_hits = 0,
      async_cancel = async, cancel_queue = []\<rparr>"

text \<open>Python's truth value of an optional float: \<open>None\<close> and \<open>0.0\<close> are false.\<close>

definition truthy :: "rat option \<Rightarrow> bool" where
  "truthy x = (case x of None \<Rightarrow> False | Some v \<Rightarrow> v \<noteq> 0)"

definition update_price_bands :: "NSEMatchingEngine \<Rightarrow> NSEMatchingEngine" where
  "update_price_bands e =
     (case reference_price e of
        Some r \<Rightarrow>
          if r \<noteq> 0
          then e\<lparr>upper_band := Some (r * (1 + price_band_pct e / 100)),
                 lower_band := Some (r * (1 - price_band_pct e / 100))\<rparr>
          else e
      | None \<Rightarrow> e)"

definition set_reference_price :: "rat \<Rightarrow> NSEMatchingEngine \<Rightarrow> NSEMatchingEngine" where
  "set_reference_price p e = update_price_bands (e\<lparr>reference_price := Some p\<rparr>)"

text \<open>Python's \<open>round\<close> to an integer: to the nearest, ties to the even neighbour.\<close>

definition py_round :: "rat \<Rightarrow> int" where
  "py_round x =
     (let f = \<lfloor>x\<rfloor>; d = x - of_int f
      in if d < 1 / 2 then f else if d > 1 / 2 then f + 1
         else if even f then f else f + 1)"

definition validate_tick_size :: "NSEMatchingEngine \<Rightarrow> rat \<Rightarrow> rat" where
  "validate_tick_size e p =
     (if tick_size e > 0 then of_int (py_round (p / tick_size e)) * tick_size e else p)"

definition check_price_band :: "NSEMatchingEngine \<Rightarrow> rat \<Rightarrow> bool" where
  "check_price_band e p =
     (case (upper_band e, lower_band e) of
        (Some u, Some l) \<Rightarrow> l \<le> p \<and> p \<le> u
      | _ \<Rightarrow> True)"

text \<open>
  Python's floats are IEEE 754 doubles. The prices of the model are rationals, of which
  the doubles are a part; where the source computes with floats and a claim depends on the
  rounding, the model rounds as the machine does. \<open>round_to_double\<close> is the rounding of
  a real number to the nearest double, ties to the even mantissa: 53 bits of mantissa for
  the normal numbers, multiples of \<open>2 ^ -1074\<close> below \<open>2 ^ -1022\<close>. \<open>to_float\<close> adds
  the overflow to an infinity at \<open>2 ^ 1024\<close>. The operations take the exact result of
  two doubles and round it; for an infinite operand they follow IEEE 754.
\<close>

function bit_length :: "int \<Rightarrow> int" where
  "bit_length n = (if n \<le> 0 then 0 else 1 + bit_length (n div 2))"
  by pat_completeness auto

termination
proof (relation "measure nat")
  show "wf (measure nat)" by simp
next
  fix n :: int
  assume "\<not> n \<le> 0"
  then have "0 < n" "n div 2 < n" by (simp_all add: int_div_less_self)
  then show "(n div 2, n) \<in> measure nat" by (simp add: zless_nat_conj)
qed

definition pow2 :: "int \<Rightarrow> rat" where
  "pow2 k = (if k \<ge> 0 then 2 ^ nat k else 1 / 2 ^ nat (- k))"

text \<open>\<open>binary_exponent x\<close> is the integer \<open>k\<close> with \<open>2 ^ k \<le> |x| < 2 ^ (k + 1)\<close>, for
  \<open>x\<close> other than 0.\<close>

definition binary_exponent :: "rat \<Rightarrow> int" where
  "binary_exponent x =
     (case quotient_of \<bar>x\<bar> of
        (n, d) \<Rightarrow>
          (let k = bit_length n - bit_length d
           in if pow2 k \<le> \<bar>x\<bar> then k else k - 1))"

definition round_to_double :: "rat \<Rightarrow> rat" where
  "round_to_double x =
     (if x = 0 then 0
      else (let q = pow2 (max (binary_exponent x) (- 1022) - 52)
            in of_int (py_round (x / q)) * q))"

datatype pyfloat = Double rat | PosInf | NegInf | NaN

definition to_float :: "rat \<Rightarrow> pyfloat" where
  "to_float x =
     (let y = round_to_double x
      in if y = 0 then Double 0
         else if binary_exponent y \<ge> 1024 then (if y > 0 then PosInf else NegInf)
         else Double y)"

definition float_sub :: "rat \<Rightarrow> rat \<Rightarrow> pyfloat" where
  "float_sub a b = to_float (a - b)"

definition float_abs :: "pyfloat \<Rightarrow> pyfloat" where
  "float_abs f =
     (case f of Double a \<Rightarrow> Double \<bar>a\<bar> | PosInf \<Rightarrow> PosInf | NegInf \<Rightarrow> PosInf
              | NaN \<Rightarrow> NaN)"

text \<open>Division by a double other than 0 (the one call divides by a reference price that
  has passed the truth test), and multiplication by a double.\<close>

definition float_div :: "pyfloat \<Rightarrow> rat \<Rightarrow> pyfloat" where
  "float_div f b =
     (case f of
        Double a \<Rightarrow> to_float (a / b)
      | PosInf \<Rightarrow> if b > 0 then PosInf else NegInf
      | NegInf \<Rightarrow> if b > 0 then NegInf else PosInf
      | NaN \<Rightarrow> NaN)"

definition float_mul :: "pyfloat \<Rightarrow> rat \<Rightarrow> pyfloat" where
  "float_mul f b =
     (case f of
        Double a \<Rightarrow> to_float (a * b)
      | PosInf \<Rightarrow> if b > 0 then PosInf else if b < 0 then NegInf else NaN
      | NegInf \<Rightarrow> if b > 0 then NegInf else if b < 0 then PosInf else NaN
      | NaN \<Rightarrow> NaN)"

definition float_ge :: "pyfloat \<Rightarrow> rat \<Rightarrow> bool" where
  "float_ge f b =
     (case f of Double a \<Rightarrow> a \<ge> b | PosInf \<Rightarrow> True | NegInf \<Rightarrow> False | NaN \<Rightarrow> False)"

text \<open>\<open>_check_circuit_breaker\<close>. The percentage is the float expression
  \<open>abs(trade_price - self.reference_price) / self.reference_price * 100\<close>, evaluated
  from the left, every operation rounded.\<close>

definition price_change_pct :: "rat \<Rightarrow> rat \<Rightarrow> pyfloat" where
  "price_change_pct tp r = float_mul (float_div (float_abs (float_sub tp r)) r) 100"

definition check_circuit_breaker ::
  "rat \<Rightarrow> NSEMatchingEngine \<Rightarrow> bool \<times> NSEMatchingEngine" where
  "check_circuit_breaker tp e =
     (case reference_price e of
        None \<Rightarrow> (False, e)
      | Some r \<Rightarrow>
          if r = 0 then (False, e)
          else if float_ge (price_change_pct tp r) (circuit_breaker_pct e)
               then (True, e\<lparr>is_halted := True, trading_phase := HALTED,
                             circuit_breaker_hits := circuit_breaker_hits e + 1\<rparr>)
               else (False, e))"

definition resume_trading :: "NSEMatchingEngine \<Rightarrow> NSEMatchingEngine" where
  "resume_trading e = e\<lparr>is_halted := False, trading_phase := CONTINUOUS\<rparr>"

definition set_trading_phase :: "TradingPhase \<Rightarrow> NSEMatchingEngine \<Rightarrow> NSEMatchingEngine" where
  "set_trading_phase phase e =
     (let e1 = e\<lparr>trading_phase := phase\<rparr>
      in if phase \<in> {PRE_OPEN, CLOSING} then e1\<lparr>auction_orders := []\<rparr> else e1)"

definition nse_add_to_order_book :: "Order \<Rightarrow> NSEMatchingEngine \<Rightarrow> NSEMatchingEngine" where
  "nse_add_to_order_book ord e =
     (if side ord = BUY then e\<lparr>bids := OrderBookSide_add_order ord (bids e)\<rparr>
      else e\<lparr>asks := OrderBookSide_add_order ord (asks e)\<rparr>)"

definition add_iceberg_to_book :: "Order \<Rightarrow> NSEMatchingEngine \<Rightarrow> NSEMatchingEngine" where
  "add_iceberg_to_book ord e = nse_add_to_order_book ord e"

text \<open>
  The exchange engine's matching loops (\<open>_match_buy_order\<close>, \<open>_match_sell_order\<close>), written
  once as for the base engine. They differ from the base engine's in three places: the
  quantity offered by the resting order is its \<open>visible_quantity\<close>, the trade is built
  directly with the resting order's price, and the level's \<open>total_volume\<close> is reduced by
  the traded quantity.
\<close>

definition nse_match_iteration ::
  "bool \<Rightarrow> Order \<Rightarrow> OrderBookSide \<Rightarrow> engine_error + OrderBookSide iteration" where
  "nse_match_iteration is_buy inc book =
     (if \<not> remaining_quantity inc > 0 then Inr (Break book)
      else case get_best_price book of
        (None, book1) \<Rightarrow> Inr (Break book1)
      | (Some best, book1) \<Rightarrow>
          if \<not> (order_type inc = MARKET
                 \<or> (if is_buy then best \<le> price inc else best \<ge> price inc))
          then Inr (Break book1)
          else case get_price_level book1 best of
            None \<Rightarrow> Inr (Break book1)
          | Some lvl \<Rightarrow>
             (case get_top_order lvl of
                None \<Rightarrow> Inr (Next [] inc (snd (get_best_price book1)))
              | Some resting \<Rightarrow>
                 (let available_qty = visible_quantity resting;
                      trade_quantity = min (remaining_quantity inc) available_qty;
                      trade = (if is_buy
                               then \<lparr>buy_order_id = order_id inc, sell_order_id = order_id resting,
                                     trade_price = price resting, trade_quantity = trade_quantity\<rparr>
                               else \<lparr>buy_order_id = order_id resting, sell_order_id = order_id inc,
                                     trade_price = price resting, trade_quantity = trade_quantity\<rparr>);
                      inc' = inc\<lparr>filled_quantity := filled_quantity inc + trade_quantity\<rparr>;
                      resting' = resting\<lparr>filled_quantity :=
                                            filled_quantity resting + trade_quantity\<rparr>;
                      book2 = mutate_order best 0 resting' book1;
                      book3 = book2\<lparr>price_levels :=
                                AList.map_entry best
                                  (\<lambda>l. l\<lparr>total_volume := total_volume l - trade_quantity\<rparr>)
                                  (price_levels book2)\<rparr>
                  in if remaining_quantity resting' = 0
                     then case OrderBookSide_remove_order (order_id resting') book3 of
                            Inl e \<Rightarrow> Inl e
                          | Inr (_, book4) \<Rightarrow> Inr (Next [trade] inc' book4)
                     else Inr (Next [trade] inc' book3))))"

fun nse_match_loop ::
  "nat \<Rightarrow> bool \<Rightarrow> Order \<Rightarrow> OrderBookSide \<Rightarrow> Trade list
     \<Rightarrow> engine_error + (Trade list \<times> Order \<times> OrderBookSide)" where
  "nse_match_loop 0 is_buy inc book trades = Inl OutOfFuel"
| "nse_match_loop (Suc n) is_buy inc book trades =
     (case nse_match_iteration is_buy inc book of
        Inl e \<Rightarrow> Inl e
      | Inr (Break book') \<Rightarrow> Inr (trades, inc, book')
      | Inr (Next ts inc' book') \<Rightarrow> nse_match_loop n is_buy inc' book' (trades @ ts))"

definition nse_match_side ::
  "nat \<Rightarrow> Order \<Rightarrow> NSEMatchingEngine
     \<Rightarrow> engine_error + (Trade list \<times> Order \<times> NSEMatchingEngine)" where
  "nse_match_side fuel ord e =
     (if side ord = BUY
      then case nse_match_loop fuel True ord (asks e) [] of
             Inl err \<Rightarrow> Inl err
           | Inr (trades, ord', a) \<Rightarrow> Inr (trades, ord', e\<lparr>asks := a\<rparr>)
      else case nse_match_loop fuel False ord (bids e) [] of
             Inl err \<Rightarrow> Inl err
           | Inr (trades, ord', b) \<Rightarrow> Inr (trades, ord', e\<lparr>bids := b\<rparr>))"

definition is_stop_triggered :: "NSEMatchingEngine \<Rightarrow> Order \<Rightarrow> bool" where
  "is_stop_triggered e ord =
     (case (last_traded_price e, stop_price ord) of
        (Some ltp, Some sp) \<Rightarrow>
          if ltp = 0 \<or> sp = 0 then False
          else if side ord = BUY then ltp \<ge> sp else ltp \<le> sp
      | _ \<Rightarrow> False)"

text \<open>An activated stop order becomes a market or a limit order.\<close>

definition activate_stop :: "Order \<Rightarrow> Order" where
  "activate_stop ord =
     (let o1 = ord\<lparr>is_triggered := True\<rparr>
      in if order_type o1 = STOP_LOSS_MARKET then o1\<lparr>order_type := MARKET, price := 0\<rparr>
         else o1\<lparr>order_type := LIMIT\<rparr>)"

text \<open>The first loop of \<open>_check_pending_stop_orders\<close>: the triggered orders in
  dictionary order, and the dictionary without them.\<close>

definition scan_pending_stops ::
  "NSEMatchingEngine \<Rightarrow> Order list \<times> (string \<times> Order) list" where
  "scan_pending_stops e =
     fold (\<lambda>(oid, ord) (triggered, pending).
             if is_stop_triggered e ord then (triggered @ [ord], AList.delete oid pending)
             else (triggered, pending))
          (pending_stop_orders e) ([], pending_stop_orders e)"

text \<open>
  \<open>_match_order\<close> and \<open>_check_pending_stop_orders\<close> call each other; every call and
  every loop iteration takes one unit of fuel.
\<close>

fun match_order ::
  "nat \<Rightarrow> Order \<Rightarrow> NSEMatchingEngine
     \<Rightarrow> engine_error + (Trade list \<times> Order \<times> NSEMatchingEngine)"
and check_pending_stop_orders ::
  "nat \<Rightarrow> NSEMatchingEngine \<Rightarrow> engine_error + NSEMatchingEngine"
and process_triggered ::
  "nat \<Rightarrow> Order list \<Rightarrow> NSEMatchingEngine \<Rightarrow> engine_error + NSEMatchingEngine" where
  "match_order 0 ord e = Inl OutOfFuel"
| "match_order (Suc n) ord e =
     (case nse_match_side n ord e of
        Inl err \<Rightarrow> Inl err
      | Inr (trades, ord', e1) \<Rightarrow>
         (case (if trades \<noteq> []
                then (let e2 = e1\<lparr>last_traded_price := Some (trade_price (last trades))\<rparr>;
                          e3 = snd (check_circuit_breaker (trade_price (last trades)) e2)
                      in check_pending_stop_orders n e3)
                else Inr e1) of
            Inl err \<Rightarrow> Inl err
          | Inr e4 \<Rightarrow>
              Inr (trades, ord',
                   e4\<lparr>trade_history := trade_history e4 @ trades,
                      total_trades := total_trades e4 + int (length trades)\<rparr>)))"
| "check_pending_stop_orders 0 e = Inl OutOfFuel"
| "check_pending_stop_orders (Suc n) e =
     (case scan_pending_stops e of
        (triggered, pending) \<Rightarrow> process_triggered n triggered (e\<lparr>pending_stop_orders := pending\<rparr>))"
| "process_triggered 0 ords e = Inl OutOfFuel"
| "process_triggered (Suc n) [] e = Inr e"
| "process_triggered (Suc n) (ord # rest) e =
     (case match_order n (activate_stop ord) e of
        Inl err \<Rightarrow> Inl err
      | Inr (_, _, e') \<Rightarrow> process_triggered n rest e')"

text \<open>\<open>limit_price\<close> of \<open>_get_available_volume_at_price\<close> is a float that may be
  \<open>float("inf")\<close>.\<close>

datatype limit_price = Finite rat | Infinity

definition le_limit :: "rat \<Rightarrow> limit_price \<Rightarrow> bool" where
  "le_limit p l = (case l of Finite x \<Rightarrow> p \<le> x | Infinity \<Rightarrow> True)"

definition ge_limit :: "rat \<Rightarrow> limit_price \<Rightarrow> bool" where
  "ge_limit p l = (case l of Finite x \<Rightarrow> p \<ge> x | Infinity \<Rightarrow> False)"

definition get_available_volume_at_price :: "OrderBookSide \<Rightarrow> limit_price \<Rightarrow> int" where
  "get_available_volume_at_price book_side_arg lp =
     (if book_side book_side_arg = SELL
      then fold (\<lambda>(p, lvl) total. if le_limit p lp then total + total_volume lvl else total)
                (price_levels book_side_arg) 0
      else fold (\<lambda>(p, lvl) total. if ge_limit p lp then total + total_volume lvl else total)
                (price_levels book_side_arg) 0)"

definition handle_fok_order ::
  "nat \<Rightarrow> Order \<Rightarrow> NSEMatchingEngine
     \<Rightarrow> engine_error + (Trade list \<times> Order \<times> NSEMatchingEngine)" where
  "handle_fok_order fuel ord e =
     (let available =
            (if side ord = BUY
             then get_available_volume_at_price (asks e)
                    (if order_type ord = LIMIT then Finite (price ord) else Infinity)
             else get_available_volume_at_price (bids e)
                    (if order_type ord = LIMIT then Finite (price ord) else Finite 0))
      in if available \<ge> quantity ord then match_order fuel ord e else Inr ([], ord, e))"

definition handle_stop_loss_order ::
  "nat \<Rightarrow> Order \<Rightarrow> NSEMatchingEngine
     \<Rightarrow> engine_error + (Trade list \<times> Order \<times> NSEMatchingEngine)" where
  "handle_stop_loss_order fuel ord e =
     (if is_stop_triggered e ord then match_order fuel (activate_stop ord) e
      else Inr ([], ord,
                e\<lparr>pending_stop_orders :=
                    AList.update (order_id ord) ord (pending_stop_orders e)\<rparr>))"

definition handle_continuous_order ::
  "nat \<Rightarrow> Order \<Rightarrow> NSEMatchingEngine
     \<Rightarrow> engine_error + (Trade list \<times> Order \<times> NSEMatchingEngine)" where
  "handle_continuous_order fuel ord e =
     (if order_type ord \<in> {STOP_LOSS, STOP_LOSS_MARKET} then handle_stop_loss_order fuel ord e
      else if order_type ord = FOK then handle_fok_order fuel ord e
      else case match_order fuel ord e of
             Inl err \<Rightarrow> Inl err
           | Inr (trades, ord', e1) \<Rightarrow>
               Inr (trades, ord',
                    if remaining_quantity ord' > 0
                    then if order_type ord' = LIMIT then nse_add_to_order_book ord' e1
                         else if order_type ord' = ICEBERG then add_iceberg_to_book ord' e1
                         else e1
                    else e1))"

definition handle_auction_order ::
  "Order \<Rightarrow> NSEMatchingEngine \<Rightarrow> Trade list \<times> Order \<times> NSEMatchingEngine" where
  "handle_auction_order ord e = ([], ord, e\<lparr>auction_orders := auction_orders e @ [ord]\<rparr>)"

text \<open>\<open>process_order\<close>; \<open>now\<close> is the value of \<open>time.time()\<close> read for the expiry
  check.\<close>

definition process_order ::
  "nat \<Rightarrow> rat \<Rightarrow> Order \<Rightarrow> NSEMatchingEngine
     \<Rightarrow> engine_error + (Trade list \<times> Order \<times> NSEMatchingEngine)" where
  "process_order fuel now ord e =
     (let e1 = e\<lparr>total_orders_processed := total_orders_processed e + 1,
                 order_history := order_history e @ [order_id ord]\<rparr>
      in if is_halted e1 then Inr ([], ord, e1)
         else if is_expired ord now then Inr ([], ord, e1)
         else (let ord1 = (if order_type ord \<in> {LIMIT, STOP_LOSS}
                           then ord\<lparr>price := validate_tick_size e1 (price ord)\<rparr> else ord)
               in if order_type ord1 \<in> {LIMIT, STOP_LOSS} \<and> \<not> check_price_band e1 (price ord1)
                  then Inr ([], ord1, e1)
                  else if trading_phase e1 \<in> {PRE_OPEN, CLOSING}
                  then Inr (handle_auction_order ord1 e1)
                  else handle_continuous_order fuel ord1 e1))"

fun nse_process_all ::
  "nat \<Rightarrow> rat \<Rightarrow> Order list \<Rightarrow> NSEMatchingEngine
     \<Rightarrow> engine_error + (Trade list list \<times> Order list \<times> NSEMatchingEngine)" where
  "nse_process_all fuel now [] e = Inr ([], [], e)"
| "nse_process_all fuel now (ord # rest) e =
     (case process_order fuel now ord e of
        Inl err \<Rightarrow> Inl err
      | Inr (ts, ord', e') \<Rightarrow>
         (case nse_process_all fuel now rest e' of
            Inl err \<Rightarrow> Inl err
          | Inr (tss, ords, e'') \<Rightarrow> Inr (ts # tss, ord' # ords, e'')))"

text \<open>
  \<open>cancel_order\<close>. With \<open>async_cancel\<close> the id is put on the (unbounded) queue and the
  call returns \<open>True\<close>; \<open>queue.Full\<close> cannot be raised by an unbounded queue.
\<close>

definition nse_cancel_order ::
  "string \<Rightarrow> NSEMatchingEngine \<Rightarrow> engine_error + (bool \<times> NSEMatchingEngine)" where
  "nse_cancel_order oid e =
     (if async_cancel e then Inr (True, e\<lparr>cancel_queue := cancel_queue e @ [oid]\<rparr>)
      else if oid \<in> dom (order_map (bids e))
      then case OrderBookSide_remove_order oid (bids e) of
             Inl err \<Rightarrow> Inl err
           | Inr (r, b) \<Rightarrow> Inr (r, e\<lparr>bids := b\<rparr>)
      else if oid \<in> dom (order_map (asks e))
      then case OrderBookSide_remove_order oid (asks e) of
             Inl err \<Rightarrow> Inl err
           | Inr (r, a) \<Rightarrow> Inr (r, e\<lparr>asks := a\<rparr>)
      else if oid \<in> fst ` set (pending_stop_orders e)
      then Inr (True, e\<lparr>pending_stop_orders := AList.delete oid (pending_stop_orders e)\<rparr>)
      else Inr (False, e))"

definition party :: "bool \<Rightarrow> Trade \<Rightarrow> string" where
  "party is_buy t = (if is_buy then buy_order_id t else sell_order_id t)"

definition pending_ids :: "NSEMatchingEngine \<Rightarrow> string set" where
  "pending_ids e = order_id ` snd ` set (pending_stop_orders e)"

definition stop_party :: "string set \<Rightarrow> Trade \<Rightarrow> bool" where
  "stop_party S t = (buy_order_id t \<in> S \<or> sell_order_id t \<in> S)"

text \<open>what a call adds to the trade history, in terms of the history's suffix \<open>st\<close>\<close>

definition stops_effect ::
  "NSEMatchingEngine \<Rightarrow> NSEMatchingEngine \<Rightarrow> string set \<Rightarrow> Trade list \<Rightarrow> bool" where
  "stops_effect e e' S st =
     (trade_history e' = trade_history e @ st \<and> (\<forall>t\<in>set st. stop_party S t) \<and>
      pending_ids e' \<subseteq> pending_ids e \<and>
      (if st = [] then last_traded_price e' = last_traded_price e
       else \<exists>t\<in>set st. last_traded_price e' = Some (trade_price t)) \<and>
      (is_halted e \<longrightarrow> is_halted e') \<and>
      (trading_phase e = HALTED \<longrightarrow> trading_phase e' = HALTED))"

definition breaker_hit :: "NSEMatchingEngine \<Rightarrow> Trade list \<Rightarrow> bool" where
  "breaker_hit e trades =
     (trades \<noteq> [] \<and>
      (case reference_price e of
         None \<Rightarrow> False
       | Some r \<Rightarrow> r \<noteq> 0 \<and>
           float_ge (price_change_pct (trade_price (last trades)) r) (circuit_breaker_pct e)))"

definition match_effect ::
  "nat \<Rightarrow> Order \<Rightarrow> NSEMatchingEngine \<Rightarrow> Trade list \<Rightarrow> Order \<Rightarrow> NSEMatchingEngine \<Rightarrow> Trade list \<Rightarrow> bool" where
  "match_effect n ord e trades ord' e' st =
     ((\<exists>e1. nse_match_side n ord e = Inr (trades, ord', e1)) \<and>
      trade_history e' = trade_history e @ st @ trades \<and>
      (\<forall>t\<in>set st. stop_party (pending_ids e) t) \<and>
      pending_ids e' \<subseteq> pending_ids e \<and>
      (if st = []
       then last_traded_price e' =
              (if trades = [] then last_traded_price e else Some (trade_price (last trades)))
       else \<exists>t\<in>set st. last_traded_price e' = Some (trade_price t)) \<and>
      (is_halted e \<longrightarrow> is_halted e') \<and>
      (trading_phase e = HALTED \<longrightarrow> trading_phase e' = HALTED) \<and>
      (breaker_hit e trades \<longrightarrow> is_halted e' \<and> trading_phase e' = HALTED))"

definition order_effect ::
  "Order \<Rightarrow> NSEMatchingEngine \<Rightarrow> Trade list \<Rightarrow> NSEMatchingEngine \<Rightarrow> Trade list \<Rightarrow> bool" where
  "order_effect ord e trades e' st =
     (trade_history e' = trade_history e @ st @ trades \<and>
      (\<forall>t\<in>set st. stop_party (pending_ids e) t) \<and>
      (\<forall>t\<in>set trades. party (side ord = BUY) t = order_id ord) \<and>
      (if st = []
       then last_traded_price e' =
              (if trades = [] then last_traded_price e else Some (trade_price (last trades)))
       else \<exists>t\<in>set st. last_traded_price e' = Some (trade_price t)) \<and>
      (breaker_hit e trades \<longrightarrow> is_halted e' \<and> trading_phase e' = HALTED))"


definition halt_scenario :: NSEMatchingEngine where
  "halt_scenario =
     (case process_order 8 0 (new_order ''s1'' SELL 89 100 1 LIMIT)
             (set_reference_price 100 (new_NSEMatchingEngine (1 / 20) 10 20 False)) of
        Inr (trades, ord', e) \<Rightarrow> e
      | Inl err \<Rightarrow> new_NSEMatchingEngine (1 / 20) 10 20 False)"

section \<open>Regime transitions (AdaptiveMatchingEngine, ShardedAdaptiveMatchingEngine)\<close>

text \<open>
  The adaptive book side and its price levels, as far as a regime transition reads or
  writes them. \<open>AdaptivePriceLevel\<close> is the subclass of \<open>PriceLevel\<close> with the regime and
  the flags of the deferred sort; \<open>AdaptiveOrderBookSide\<close> has the fields of
  \<open>OrderBookSide\<close> with adaptive levels, and its own regime.
\<close>

record AdaptivePriceLevel = PriceLevel +
  level_regime :: MarketRegime
  needs_resort :: bool
  maintain_sorted :: bool
  sorted_flag :: bool

definition AdaptivePriceLevel_set_regime ::
  "MarketRegime \<Rightarrow> AdaptivePriceLevel \<Rightarrow> AdaptivePriceLevel" where
  "AdaptivePriceLevel_set_regime new_regime lvl =
     (if level_regime lvl \<noteq> new_regime
      then lvl\<lparr>level_regime := new_regime, needs_resort := True, sorted_flag := False\<rparr>
      else lvl)"

record AdaptiveOrderBookSide =
  a_side :: OrderSide
  a_heap :: "rat list"
  a_price_levels :: "(rat \<times> AdaptivePriceLevel) list"
  a_order_map :: "string \<rightharpoonup> Order"
  a_order_to_price_level :: "string \<rightharpoonup> rat"
  a_regime :: MarketRegime

definition new_AdaptiveOrderBookSide :: "OrderSide \<Rightarrow> MarketRegime \<Rightarrow> AdaptiveOrderBookSide" where
  "new_AdaptiveOrderBookSide sd rg =
     \<lparr>a_side = sd, a_heap = [], a_price_levels = [], a_order_map = Map.empty,
      a_order_to_price_level = Map.empty, a_regime = rg\<rparr>"

definition AdaptiveOrderBookSide_set_regime ::
  "MarketRegime \<Rightarrow> AdaptiveOrderBookSide \<Rightarrow> AdaptiveOrderBookSide" where
  "AdaptiveOrderBookSide_set_regime new_regime b =
     (if a_regime b \<noteq> new_regime
      then b\<lparr>a_regime := new_regime,
             a_price_levels :=
               map (\<lambda>(p, lvl). (p, AdaptivePriceLevel_set_regime new_regime lvl))
                   (a_price_levels b)\<rparr>
      else b)"

text \<open>An entry of \<open>regime_history\<close>: the dictionary with the keys \<open>timestamp\<close>,
  \<open>from_regime\<close> and \<open>to_regime\<close>.\<close>

record RegimeChange =
  change_timestamp :: rat
  from_regime :: MarketRegime
  to_regime :: MarketRegime

text \<open>
  The adaptive engine's state as \<open>_transition_regime\<close> sees it (the trade and order logs
  and the detector are not touched by it). \<open>t1\<close> and \<open>t2\<close> are the two readings of
  \<open>time.time()\<close>.
\<close>

record AdaptiveMatchingEngine =
  am_bids :: AdaptiveOrderBookSide
  am_asks :: AdaptiveOrderBookSide
  current_regime :: MarketRegime
  regime_change_count :: int
  last_regime_change :: rat
  regime_history :: "RegimeChange list"

definition new_AdaptiveMatchingEngine :: "rat \<Rightarrow> AdaptiveMatchingEngine" where
  "new_AdaptiveMatchingEngine t0 =
     \<lparr>am_bids = new_AdaptiveOrderBookSide BUY NORMAL,
      am_asks = new_AdaptiveOrderBookSide SELL NORMAL,
      current_regime = NORMAL, regime_change_count = 0, last_regime_change = t0,
      regime_history = []\<rparr>"

definition transition_regime ::
  "MarketRegime \<Rightarrow> rat \<Rightarrow> rat \<Rightarrow> AdaptiveMatchingEngine \<Rightarrow> AdaptiveMatchingEngine" where
  "transition_regime new_regime t1 t2 e =
     (let e1 = e\<lparr>am_bids := AdaptiveOrderBookSide_set_regime new_regime (am_bids e)\<rparr>;
          e2 = e1\<lparr>am_asks := AdaptiveOrderBookSide_set_regime new_regime (am_asks e1)\<rparr>;
          e3 = e2\<lparr>current_regime := new_regime\<rparr>;
          e4 = e3\<lparr>regime_change_count := regime_change_count e3 + 1\<rparr>;
          e5 = e4\<lparr>last_regime_change := t1\<rparr>
      in e5\<lparr>regime_history :=
               regime_history e5 @
                 [\<lparr>change_timestamp = t2, from_regime = current_regime e5,
                   to_regime = new_regime\<rparr>]\<rparr>)"

text \<open>The step of \<open>process_order\<close> that follows the detector's answer \<open>new_regime\<close>.\<close>

definition handle_detected_regime ::
  "MarketRegime \<Rightarrow> rat \<Rightarrow> rat \<Rightarrow> AdaptiveMatchingEngine \<Rightarrow> AdaptiveMatchingEngine" where
  "handle_detected_regime new_regime t1 t2 e =
     (if new_regime \<noteq> current_regime e then transition_regime new_regime t1 t2 e else e)"

text \<open>The sharded adaptive engine: each side is a list of adaptive shards with a regime
  of its own.\<close>

record ShardedAdaptiveOrderBookSide =
  sa_shards :: "AdaptiveOrderBookSide list"
  sa_regime :: MarketRegime

definition ShardedAdaptiveOrderBookSide_set_regime ::
  "MarketRegime \<Rightarrow> ShardedAdaptiveOrderBookSide \<Rightarrow> ShardedAdaptiveOrderBookSide" where
  "ShardedAdaptiveOrderBookSide_set_regime new_regime b =
     b\<lparr>sa_regime := new_regime,
       sa_shards := map (AdaptiveOrderBookSide_set_regime new_regime) (sa_shards b)\<rparr>"

record ShardedAdaptiveMatchingEngine =
  sam_bids :: ShardedAdaptiveOrderBookSide
  sam_asks :: ShardedAdaptiveOrderBookSide
  sam_current_regime :: MarketRegime
  sam_regime_change_count :: int
  sam_last_regime_change :: rat
  sam_regime_history :: "RegimeChange list"

definition sharded_transition_regime ::
  "MarketRegime \<Rightarrow> rat \<Rightarrow> rat \<Rightarrow> ShardedAdaptiveMatchingEngine
     \<Rightarrow> ShardedAdaptiveMatchingEngine" where
  "sharded_transition_regime new_regime t1 t2 e =
     (let e1 = e\<lparr>sam_bids := ShardedAdaptiveOrderBookSide_set_regime new_regime (sam_bids e)\<rparr>;
          e2 = e1\<lparr>sam_asks := ShardedAdaptiveOrderBookSide_set_regime new_regime (sam_asks e1)\<rparr>;
          old_regime = sam_current_regime e2;
          e3 = e2\<lparr>sam_current_regime := new_regime\<rparr>;
          e4 = e3\<lparr>sam_regime_change_count := sam_regime_change_count e3 + 1\<rparr>;
          e5 = e4\<lparr>sam_last_regime_change := t1\<rparr>
      in e5\<lparr>sam_regime_history :=
               sam_regime_history e5 @
                 [\<lparr>change_timestamp = t2, from_regime = old_regime,
                   to_regime = new_regime\<rparr>]\<rparr>)"

definition sharded_handle_detected_regime ::
  "MarketRegime \<Rightarrow> rat \<Rightarrow> rat \<Rightarrow> ShardedAdaptiveMatchingEngine
     \<Rightarrow> ShardedAdaptiveMatchingEngine" where
  "sharded_handle_detected_regime new_regime t1 t2 e =
     (if new_regime \<noteq> sam_current_regime e then sharded_transition_regime new_regime t1 t2 e
      else e)"

section \<open>The call auction (NSEMatchingEngine.execute_call_auction)\<close>

text \<open>
  The two dictionaries of \<open>execute_call_auction\<close> map a price to the list of the buffered
  orders at that price, in the order of the buffer; the keys are in the order of their
  first insertion. The values hold the order objects of \<open>auction_orders\<close> themselves: an
  entry is modelled as the position of the object in \<open>auction_orders\<close> together with its
  current state, and the fills are written back to those positions. Every entry of the
  buffer is taken to be an object of its own.
\<close>

type_synonym auction_entry = "nat \<times> Order"

type_synonym orders_by_price = "(rat \<times> auction_entry list) list"

definition append_at_price :: "auction_entry \<Rightarrow> orders_by_price \<Rightarrow> orders_by_price" where
  "append_at_price x d = AList.map_default (price (snd x)) [x] (\<lambda>l. l @ [x]) d"

definition buy_orders_by_price :: "Order list \<Rightarrow> orders_by_price" where
  "buy_orders_by_price os =
     fold append_at_price (filter (\<lambda>x. side (snd x) = BUY) (enumerate 0 os)) []"

definition sell_orders_by_price :: "Order list \<Rightarrow> orders_by_price" where
  "sell_orders_by_price os =
     fold append_at_price (filter (\<lambda>x. side (snd x) \<noteq> BUY) (enumerate 0 os)) []"

definition orders_quantity :: "auction_entry list \<Rightarrow> int" where
  "orders_quantity l = sum_list (map (\<lambda>x. quantity (snd x)) l)"

definition buy_volume :: "orders_by_price \<Rightarrow> rat \<Rightarrow> int" where
  "buy_volume buy_orders p =
     sum_list (map (\<lambda>kv. orders_quantity (snd kv)) (filter (\<lambda>kv. fst kv \<ge> p) buy_orders))"

definition sell_volume :: "orders_by_price \<Rightarrow> rat \<Rightarrow> int" where
  "sell_volume sell_orders p =
     sum_list (map (\<lambda>kv. orders_quantity (snd kv)) (filter (\<lambda>kv. fst kv \<le> p) sell_orders))"

definition tradeable_volume :: "orders_by_price \<Rightarrow> orders_by_price \<Rightarrow> rat \<Rightarrow> int" where
  "tradeable_volume buy_orders sell_orders p =
     min (buy_volume buy_orders p) (sell_volume sell_orders p)"

text \<open>One iteration of the loop of \<open>_find_equilibrium_price\<close> over the sorted prices; the
  state is the pair \<open>(best_price, max_volume)\<close>.\<close>

definition equilibrium_step ::
  "rat option \<Rightarrow> orders_by_price \<Rightarrow> orders_by_price \<Rightarrow> rat
     \<Rightarrow> rat option \<times> int \<Rightarrow> rat option \<times> int" where
  "equilibrium_step ref buy_orders sell_orders p st =
     (let best_price = fst st; max_volume = snd st;
          tv = tradeable_volume buy_orders sell_orders p
      in if tv > max_volume then (Some p, tv)
         else if tv = max_volume \<and> best_price \<noteq> None
         then (case (ref, best_price) of
                 (Some r, Some bp) \<Rightarrow>
                   if r \<noteq> 0 \<and> \<bar>p - r\<bar> < \<bar>bp - r\<bar> then (Some p, max_volume)
                   else (best_price, max_volume)
               | _ \<Rightarrow> (best_price, max_volume))
         else (best_price, max_volume))"

definition all_prices :: "orders_by_price \<Rightarrow> orders_by_price \<Rightarrow> rat list" where
  "all_prices buy_orders sell_orders =
     sort (remdups (map fst buy_orders @ map fst sell_orders))"

definition find_equilibrium_price ::
  "rat option \<Rightarrow> orders_by_price \<Rightarrow> orders_by_price \<Rightarrow> rat option \<times> int" where
  "find_equilibrium_price ref buy_orders sell_orders =
     (if all_prices buy_orders sell_orders = [] then (None, 0)
      else fold (equilibrium_step ref buy_orders sell_orders)
                (all_prices buy_orders sell_orders) (None, 0))"

text \<open>
  The matching loop of \<open>_execute_auction_at_price\<close>: two indices into the lists of buyers
  and sellers. Each iteration advances an index: it skips an order with nothing left, or
  trades the smaller of the two remaining quantities, which leaves one of the two orders
  with nothing.
\<close>

definition fill :: "int \<Rightarrow> Order \<Rightarrow> Order" where
  "fill q ord = ord\<lparr>filled_quantity := filled_quantity ord + q\<rparr>"

function auction_loop ::
  "rat \<Rightarrow> nat \<Rightarrow> nat \<Rightarrow> auction_entry list \<Rightarrow> auction_entry list \<Rightarrow> Trade list
     \<Rightarrow> NSEMatchingEngine
     \<Rightarrow> Trade list \<times> auction_entry list \<times> auction_entry list \<times> NSEMatchingEngine" where
  "auction_loop p buy_idx sell_idx buyers sellers trades e =
     (if buy_idx < length buyers \<and> sell_idx < length sellers
      then (let buy_order = snd (buyers ! buy_idx);
                sell_order = snd (sellers ! sell_idx)
            in if remaining_quantity buy_order = 0
               then auction_loop p (buy_idx + 1) sell_idx buyers sellers trades e
               else if remaining_quantity sell_order = 0
               then auction_loop p buy_idx (sell_idx + 1) buyers sellers trades e
               else (let trade_qty = min (remaining_quantity buy_order)
                                         (remaining_quantity sell_order);
                         trade = \<lparr>buy_order_id = order_id buy_order,
                                  sell_order_id = order_id sell_order,
                                  trade_price = p, trade_quantity = trade_qty\<rparr>;
                         e' = e\<lparr>trade_history := trade_history e @ [trade],
                                total_trades := total_trades e + 1\<rparr>;
                         buy_order' = fill trade_qty buy_order;
                         sell_order' = fill trade_qty sell_order;
                         buyers' = buyers[buy_idx := (fst (buyers ! buy_idx), buy_order')];
                         sellers' = sellers[sell_idx := (fst (sellers ! sell_idx), sell_order')]
                     in auction_loop p
                          (if remaining_quantity buy_order' = 0 then buy_idx + 1 else buy_idx)
                          (if remaining_quantity sell_order' = 0 then sell_idx + 1 else sell_idx)
                          buyers' sellers' (trades @ [trade]) e'))
      else (trades, buyers, sellers, e))"
  by pat_completeness auto

termination
  by (relation "measure (\<lambda>(p, buy_idx, sell_idx, buyers, sellers, trades, e).
                   (length buyers - buy_idx) + (length sellers - sell_idx))")
     (auto simp: remaining_quantity_def fill_def min_def)

definition execute_auction_at_price ::
  "rat \<Rightarrow> orders_by_price \<Rightarrow> orders_by_price \<Rightarrow> NSEMatchingEngine
     \<Rightarrow> Trade list \<times> auction_entry list \<times> auction_entry list \<times> NSEMatchingEngine" where
  "execute_auction_at_price p buy_orders sell_orders e =
     (let buyers = concat (map snd (filter (\<lambda>kv. fst kv \<ge> p) buy_orders));
          sellers = concat (map snd (filter (\<lambda>kv. fst kv \<le> p) sell_orders))
      in auction_loop p 0 0 (sort_key (\<lambda>x. timestamp (snd x)) buyers)
                            (sort_key (\<lambda>x. timestamp (snd x)) sellers) [] e)"

definition write_back :: "auction_entry list \<Rightarrow> Order list \<Rightarrow> Order list" where
  "write_back entries os = fold (\<lambda>x l. l[fst x := snd x]) entries os"

definition add_limit_orders :: "bool \<Rightarrow> Order list \<Rightarrow> NSEMatchingEngine \<Rightarrow> NSEMatchingEngine" where
  "add_limit_orders unmatched_only os e =
     fold (\<lambda>ord e. if (unmatched_only \<longrightarrow> remaining_quantity ord > 0) \<and> order_type ord = LIMIT
                    then nse_add_to_order_book ord e else e) os e"

definition execute_call_auction :: "NSEMatchingEngine \<Rightarrow> Trade list \<times> NSEMatchingEngine" where
  "execute_call_auction e =
     (if auction_orders e = [] then ([], e)
      else (let buy_orders = buy_orders_by_price (auction_orders e);
                sell_orders = sell_orders_by_price (auction_orders e)
            in case fst (find_equilibrium_price (reference_price e) buy_orders sell_orders) of
                 None \<Rightarrow>
                   ([], (add_limit_orders False (auction_orders e) e)\<lparr>auction_orders := []\<rparr>)
               | Some p \<Rightarrow>
                   (case execute_auction_at_price p buy_orders sell_orders e of
                      (trades, buyers, sellers, e1) \<Rightarrow>
                        (let e2 = (if trading_phase e1 = PRE_OPEN
                                   then (let e1' = e1\<lparr>opening_price := Some p,
                                                      last_traded_price := Some p\<rparr>
                                         in if reference_price e1' = None
                                            then update_price_bands
                                                   (e1'\<lparr>reference_price := Some p\<rparr>)
                                            else e1')
                                   else e1);
                             os = write_back (buyers @ sellers) (auction_orders e2);
                             e3 = add_limit_orders True os e2
                         in (trades, e3\<lparr>auction_orders := [], trading_phase := CONTINUOUS\<rparr>)))))"

text \<open>
  An engine in the pre-open phase, with the reference price \<open>ref\<close> if one is given, after
  the orders \<open>os\<close> have been submitted through \<open>process_order\<close>.
\<close>

definition auction_scenario :: "rat option \<Rightarrow> Order list \<Rightarrow> NSEMatchingEngine" where
  "auction_scenario ref os =
     (let e0 = set_trading_phase PRE_OPEN (new_NSEMatchingEngine (5 / 100) 10 20 False);
          e1 = (case ref of None \<Rightarrow> e0 | Some r \<Rightarrow> set_reference_price r e0)
      in case nse_process_all 8 0 os e1 of
           Inl err \<Rightarrow> e1
         | Inr (tss, ords, e) \<Rightarrow> e)"

definition s3_orders :: "Order list" where
  "s3_orders =
     [new_order ''b1'' BUY 102 100 1 LIMIT, new_order ''b2'' BUY 101 150 2 LIMIT,
      new_order ''b3'' BUY 100 200 3 LIMIT, new_order ''s1'' SELL 100 120 4 LIMIT,
      new_order ''s2'' SELL 101 180 5 LIMIT, new_order ''s3'' SELL 102 150 6 LIMIT]"

definition tie_orders :: "Order list" where
  "tie_orders = [new_order ''s1'' SELL 99 10 1 LIMIT, new_order ''b1'' BUY 101 10 2 LIMIT]"

text \<open>
  The quantities of the auction as the specification words them, over the buffer itself:
  the cumulative buy volume at the prices from \<open>p\<close> upwards, the cumulative sell volume at
  the prices up to \<open>p\<close>, and the smaller of the two. \<open>reference_distance\<close> is the distance
  the tie-break compares; without a (non-zero) reference price there is no tie-break,
  written here as distance 0.
\<close>

definition cumulative_buy_volume :: "Order list \<Rightarrow> rat \<Rightarrow> int" where
  "cumulative_buy_volume os p =
     sum_list (map quantity (filter (\<lambda>ord. side ord = BUY \<and> p \<le> price ord) os))"

definition cumulative_sell_volume :: "Order list \<Rightarrow> rat \<Rightarrow> int" where
  "cumulative_sell_volume os p =
     sum_list (map quantity (filter (\<lambda>ord. side ord = SELL \<and> price ord \<le> p) os))"

definition tradeable :: "Order list \<Rightarrow> rat \<Rightarrow> int" where
  "tradeable os p = min (cumulative_buy_volume os p) (cumulative_sell_volume os p)"

definition reference_distance :: "rat option \<Rightarrow> rat \<Rightarrow> rat" where
  "reference_distance ref p =
     (case ref of None \<Rightarrow> 0 | Some r \<Rightarrow> if r = 0 then 0 else \<bar>p - r\<bar>)"

definition auction_price :: "NSEMatchingEngine \<Rightarrow> rat option" where
  "auction_price e =
     fst (find_equilibrium_price (reference_price e)
            (buy_orders_by_price (auction_orders e))
            (sell_orders_by_price (auction_orders e)))"

text \<open>The invariant of the loop of \<open>_find_equilibrium_price\<close> after the prices \<open>seen\<close>.\<close>

definition equilibrium_inv ::
  "rat option \<Rightarrow> (rat \<Rightarrow> int) \<Rightarrow> rat list \<Rightarrow> rat option \<times> int \<Rightarrow> bool" where
  "equilibrium_inv ref tv seen st =
     (case fst st of
        None \<Rightarrow> snd st = 0 \<and> (\<forall>q\<in>set seen. tv q \<le> 0)
      | Some bp \<Rightarrow>
          bp \<in> set seen \<and> tv bp = snd st \<and> 0 < snd st
        \<and> (\<forall>q\<in>set seen. tv q \<le> snd st)
        \<and> (\<forall>q\<in>set seen. tv q = snd st \<longrightarrow>
              reference_distance ref bp < reference_distance ref q
            \<or> (reference_distance ref bp = reference_distance ref q \<and> bp \<le> q)))"

section \<open>Properties of the book\<close>

lemma get_best_price_loop_idem:
  "get_best_price_loop sd h pls = (r, h', pls') \<Longrightarrow>
   get_best_price_loop sd h' pls' = (r, h', pls')"
  by (induction sd h pls rule: get_best_price_loop.induct)
     (auto simp: Let_def split: option.splits if_splits)

lemma get_best_price_idem:
  "get_best_price b = (r, b') \<Longrightarrow> get_best_price b' = (r, b')"
  by (auto simp: get_best_price_def split: prod.splits dest: get_best_price_loop_idem)


section \<open>Scenarios on the base engine\<close>

text \<open>
  C9 (scenario S1, FIFO at one price). On an empty base engine, BUY b1 at 100 for 100
  (t=1), BUY b2 at 100 for 200 (t=2) and SELL s1 at 100 for 150 (t=3), all limit orders,
  are processed in this order. The first two calls return no trade; the third returns
  exactly the trades (b1, s1, 100, 100) and (b2, s1, 100, 50), in this order, and these
  are the trade history. Afterwards b1 is no longer registered on the bid side, the only
  bid level is the one at 100, and its only order is b2 with filled quantity 50, that is
  remaining quantity 150; s1 is fully filled and does not rest.
\<close>

theorem C9_fifo_same_price:
  "case process_all 5
          [new_order ''b1'' BUY 100 100 1 LIMIT,
           new_order ''b2'' BUY 100 200 2 LIMIT,
           new_order ''s1'' SELL 100 150 3 LIMIT]
          new_BaseMatchingEngine of
     Inl err \<Rightarrow> False
   | Inr (tss, ords, e) \<Rightarrow>
       tss = [[], [],
              [\<lparr>buy_order_id = ''b1'', sell_order_id = ''s1'',
                trade_price = 100, trade_quantity = 100\<rparr>,
               \<lparr>buy_order_id = ''b2'', sell_order_id = ''s1'',
                trade_price = 100, trade_quantity = 50\<rparr>]]
       \<and> trade_history e = last tss
       \<and> order_map (bids e) ''b1'' = None
       \<and> order_to_price_level (bids e) ''b1'' = None
       \<and> map fst (price_levels (bids e)) = [100]
       \<and> (case get_price_level (bids e) 100 of
            None \<Rightarrow> False
          | Some lvl \<Rightarrow>
              map (\<lambda>ord. (order_id ord, quantity ord, filled_quantity ord,
                          remaining_quantity ord)) (orders lvl)
                = [(''b2'', 200, 50, 150)])
       \<and> map_option remaining_quantity (order_map (bids e) ''b2'') = Some 150
       \<and> remaining_quantity (last ords) = 0
       \<and> price_levels (asks e) = []"
  by code_simp

text \<open>
  C1 (pricing rule) at a failing input. A limit BUY b1 at 100 for 10 rests; a limit SELL s1
  at 99 for 10 arrives and matches it. The resting order's price is 100, and the trade the
  base engine returns has price 99, the incoming order's price: \<open>create_trade\<close> takes the
  sell order's price whenever neither order is a market order.
\<close>

theorem C1_incoming_sell_limit_sets_price:
  "case process_all 5
          [new_order ''b1'' BUY 100 10 1 LIMIT,
           new_order ''s1'' SELL 99 10 2 LIMIT]
          new_BaseMatchingEngine of
     Inl err \<Rightarrow> False
   | Inr (tss, ords, e) \<Rightarrow>
       tss = [[], [\<lparr>buy_order_id = ''b1'', sell_order_id = ''s1'',
                    trade_price = 99, trade_quantity = 10\<rparr>]]"
  by code_simp

text \<open>
  C5 (volume invariant) at a failing input. A limit SELL s1 at 100 for 100 rests; a limit
  BUY b1 at 100 for 30 fills 30 of it. Afterwards the ask level at 100 holds s1 with
  remaining quantity 70, and its \<open>total_volume\<close> is still 100: the base engine's loop
  changes \<open>filled_quantity\<close> and never the level's volume.
\<close>

theorem C5_partial_fill_leaves_total_volume:
  "case process_all 5
          [new_order ''s1'' SELL 100 100 1 LIMIT,
           new_order ''b1'' BUY 100 30 2 LIMIT]
          new_BaseMatchingEngine of
     Inl err \<Rightarrow> False
   | Inr (tss, ords, e) \<Rightarrow>
       (case get_price_level (asks e) 100 of
          None \<Rightarrow> False
        | Some lvl \<Rightarrow>
            map order_id (orders lvl) = [''s1'']
            \<and> sum_list (map remaining_quantity (orders lvl)) = 70
            \<and> total_volume lvl = 100)"
  by code_simp

section \<open>Scenarios on the exchange engine\<close>

text \<open>
  C3 (fill-or-kill admission) at a failing input. An exchange engine with the default
  parameters and no reference price holds the limit SELL s1 at 100 for 50 and the limit SELL
  s2 at 110 for 50. A BUY of type FOK at 100 for 100 arrives. The depth at acceptable
  prices (asks at or below 100) is 50, less than 100, but \<open>_handle_fok_order\<close> asks for
  the depth up to \<open>float("inf")\<close> because the order's type is never \<open>LIMIT\<close> there; it
  finds 100, lets the order match, and the order is filled for 50 at 100 and its other 50
  are dropped. The book has changed: s1 is gone.
\<close>

theorem C3_fok_partially_filled:
  "case nse_process_all 6 0
          [new_order ''s1'' SELL 100 50 1 LIMIT,
           new_order ''s2'' SELL 110 50 2 LIMIT,
           new_order ''f1'' BUY 100 100 3 FOK]
          (new_NSEMatchingEngine (1 / 20) 10 20 False) of
     Inl err \<Rightarrow> False
   | Inr (tss, ords, e) \<Rightarrow>
       tss = [[], [],
              [\<lparr>buy_order_id = ''f1'', sell_order_id = ''s1'',
                trade_price = 100, trade_quantity = 50\<rparr>]]
       \<and> filled_quantity (last ords) = 50
       \<and> remaining_quantity (last ords) = 50
       \<and> map fst (price_levels (asks e)) = [110]
       \<and> order_map (asks e) ''s1'' = None
       \<and> price_levels (bids e) = []"
  by code_simp

lemma nse_match_iteration_Next:
  "nse_match_iteration is_buy inc book = Inr (Next ts inc' book') \<Longrightarrow>
   order_id inc' = order_id inc \<and> side inc' = side inc \<and>
   (\<forall>t\<in>set ts. party is_buy t = order_id inc)"
  unfolding nse_match_iteration_def Let_def
  by (auto simp: party_def split: if_splits prod.splits option.splits sum.splits)

lemma nse_match_loop_trades:
  "nse_match_loop n is_buy inc book acc = Inr (ts, inc', book') \<Longrightarrow>
   order_id inc' = order_id inc \<and> side inc' = side inc \<and>
   (\<exists>new. ts = acc @ new \<and> (\<forall>t\<in>set new. party is_buy t = order_id inc))"
proof (induction n arbitrary: inc book acc)
  case 0
  then show ?case by simp
next
  case (Suc n)
  show ?case
  proof (cases "nse_match_iteration is_buy inc book")
    case (Inl e)
    with Suc.prems show ?thesis by simp
  next
    case (Inr it)
    show ?thesis
    proof (cases it)
      case (Break b)
      with Inr Suc.prems show ?thesis by simp
    next
      case (Next ts1 inc1 b1)
      with Inr Suc.prems have rec: "nse_match_loop n is_buy inc1 b1 (acc @ ts1) = Inr (ts, inc', book')"
        by simp
      from Next Inr have st: "order_id inc1 = order_id inc" "side inc1 = side inc"
        "\<forall>t\<in>set ts1. party is_buy t = order_id inc"
        using nse_match_iteration_Next by blast+
      from Suc.IH[OF rec] st show ?thesis by auto
    qed
  qed
qed

lemma nse_match_side_frame:
  assumes "nse_match_side n ord e = Inr (ts, ord', e1)"
  shows "pending_stop_orders e1 = pending_stop_orders e \<and>
     trade_history e1 = trade_history e \<and>
     last_traded_price e1 = last_traded_price e \<and>
     is_halted e1 = is_halted e \<and>
     trading_phase e1 = trading_phase e \<and>
     reference_price e1 = reference_price e \<and>
     circuit_breaker_pct e1 = circuit_breaker_pct e \<and>
     order_id ord' = order_id ord \<and>
     (\<forall>t\<in>set ts. party (side ord = BUY) t = order_id ord)"
proof (cases "side ord = BUY")
  case True
  with assms obtain a where l: "nse_match_loop n True ord (asks e) [] = Inr (ts, ord', a)"
    and e1: "e1 = e\<lparr>asks := a\<rparr>"
    by (auto simp: nse_match_side_def split: sum.splits)
  from nse_match_loop_trades[OF l] e1 True show ?thesis by simp
next
  case False
  with assms obtain b where l: "nse_match_loop n False ord (bids e) [] = Inr (ts, ord', b)"
    and e1: "e1 = e\<lparr>bids := b\<rparr>"
    by (auto simp: nse_match_side_def split: sum.splits)
  from nse_match_loop_trades[OF l] e1 False show ?thesis by simp
qed

lemma scan_fold:
  "fold (\<lambda>(oid, ord) (triggered, pending).
             if P ord then (triggered @ [ord], AList.delete oid pending)
             else (triggered, pending)) xs (t0, p0) = (t, p) \<Longrightarrow>
   set t \<subseteq> set t0 \<union> snd ` set xs \<and> set p \<subseteq> set p0"
proof (induction xs arbitrary: t0 p0)
  case Nil
  then show ?case by simp
next
  case (Cons x xs)
  obtain oid ord where x: "x = (oid, ord)" by (cases x)
  show ?case
  proof (cases "P ord")
    case True
    with Cons.prems x have "fold (\<lambda>(oid, ord) (triggered, pending).
             if P ord then (triggered @ [ord], AList.delete oid pending)
             else (triggered, pending)) xs (t0 @ [ord], AList.delete oid p0) = (t, p)" by simp
    from Cons.IH[OF this] x show ?thesis by (auto simp: AList.delete_eq)
  next
    case False
    with Cons.prems x have "fold (\<lambda>(oid, ord) (triggered, pending).
             if P ord then (triggered @ [ord], AList.delete oid pending)
             else (triggered, pending)) xs (t0, p0) = (t, p)" by simp
    from Cons.IH[OF this] x show ?thesis by auto
  qed
qed

lemma scan_pending_stops_sub:
  "scan_pending_stops e = (trig, pend) \<Longrightarrow>
   order_id ` set trig \<subseteq> pending_ids e \<and> order_id ` snd ` set pend \<subseteq> pending_ids e"
  unfolding scan_pending_stops_def pending_ids_def
  by (drule scan_fold) auto

lemma check_circuit_breaker_frame:
  "check_circuit_breaker tp e = (r, e') \<Longrightarrow>
   pending_stop_orders e' = pending_stop_orders e \<and> trade_history e' = trade_history e \<and>
   last_traded_price e' = last_traded_price e \<and> (is_halted e \<longrightarrow> is_halted e') \<and>
   (trading_phase e = HALTED \<longrightarrow> trading_phase e' = HALTED)"
  by (auto simp: check_circuit_breaker_def Let_def split: option.splits if_splits)

lemma activate_stop_id [simp]: "order_id (activate_stop ord) = order_id ord"
  by (simp add: activate_stop_def Let_def)

lemma stops_effect_refl: "stops_effect e e S []"
  by (simp add: stops_effect_def)

lemma stops_effect_trans:
  "stops_effect e e1 S st1 \<Longrightarrow> stops_effect e1 e2 S2 st2 \<Longrightarrow> S2 \<subseteq> S \<Longrightarrow> 
   stops_effect e e2 S (st1 @ st2)"
  unfolding stops_effect_def stop_party_def
  by (auto split: if_splits)

lemma check_circuit_breaker_hit:
  "breaker_hit e trades \<Longrightarrow>
   is_halted (snd (check_circuit_breaker (trade_price (last trades)) e)) \<and>
   trading_phase (snd (check_circuit_breaker (trade_price (last trades)) e)) = HALTED"
  by (auto simp: breaker_hit_def check_circuit_breaker_def Let_def split: option.splits)

lemma match_effect_stops:
  assumes "match_effect n ord e trades ord' e' st" "order_id ord \<in> S" "pending_ids e \<subseteq> S"
  shows "stops_effect e e' S (st @ trades)"
proof -
  from assms(1) obtain e1 where m: "nse_match_side n ord e = Inr (trades, ord', e1)"
    by (auto simp: match_effect_def)
  from nse_match_side_frame[OF m] assms(2)
  have tp: "\<forall>t\<in>set trades. stop_party S t"
    by (auto simp: stop_party_def party_def split: if_splits)
  from assms(1,3) have sp: "\<forall>t\<in>set st. stop_party S t"
    by (auto simp: match_effect_def stop_party_def)
  have l: "if st @ trades = [] then last_traded_price e' = last_traded_price e
       else \<exists>t\<in>set (st @ trades). last_traded_price e' = Some (trade_price t)"
    using assms(1) unfolding match_effect_def
    by (cases "st = []"; cases "trades = []") auto
  from assms(1) have rest: "trade_history e' = trade_history e @ st @ trades"
    "pending_ids e' \<subseteq> pending_ids e" "is_halted e \<longrightarrow> is_halted e'"
    "trading_phase e = HALTED \<longrightarrow> trading_phase e' = HALTED"
    by (simp_all add: match_effect_def)
  show ?thesis
    unfolding stops_effect_def using tp sp l rest by (simp add: ball_Un)
qed

lemma stop_party_mono: "stop_party S t \<Longrightarrow> S \<subseteq> S' \<Longrightarrow> stop_party S' t"
  by (auto simp: stop_party_def)

lemma stops_mutual:
  "(\<forall>ord e trades ord' e'. match_order n ord e = Inr (trades, ord', e') \<longrightarrow>
       (\<exists>st. match_effect (n - 1) ord e trades ord' e' st)) \<and>
   (\<forall>e e'. check_pending_stop_orders n e = Inr e' \<longrightarrow>
       (\<exists>st. stops_effect e e' (pending_ids e) st)) \<and>
   (\<forall>ords e e'. process_triggered n ords e = Inr e' \<longrightarrow>
       (\<exists>st. stops_effect e e' (pending_ids e \<union> order_id ` set ords) st))"
proof (induction n)
  case 0
  show ?case by simp
next
  case (Suc n)
  have IH1: "\<And>ord e trades ord' e'. match_order n ord e = Inr (trades, ord', e') \<Longrightarrow>
       \<exists>st. match_effect (n - 1) ord e trades ord' e' st"
    and IH2: "\<And>e e'. check_pending_stop_orders n e = Inr e' \<Longrightarrow>
       \<exists>st. stops_effect e e' (pending_ids e) st"
    and IH3: "\<And>ords e e'. process_triggered n ords e = Inr e' \<Longrightarrow>
       \<exists>st. stops_effect e e' (pending_ids e \<union> order_id ` set ords) st"
    using Suc.IH by blast+
  have P1: "\<exists>st. match_effect n ord e trades ord' e' st"
    if m: "match_order (Suc n) ord e = Inr (trades, ord', e')" for ord e trades ord' e'
  proof -
    from m obtain e1 where s: "nse_match_side n ord e = Inr (trades, ord', e1)"
      by (auto split: sum.splits)
    note fr = nse_match_side_frame[OF s]
    show ?thesis
    proof (cases "trades = []")
      case True
      with m s have e': "e' = e1\<lparr>trade_history := trade_history e1 @ [],
                      total_trades := total_trades e1 + int (length trades)\<rparr>"
        by simp
      have "match_effect n ord e trades ord' e' []"
        unfolding match_effect_def breaker_hit_def using s fr True e'
        by (simp add: pending_ids_def)
      then show ?thesis ..
    next
      case False
      define p where "p = trade_price (last trades)"
      define e2 where "e2 = e1\<lparr>last_traded_price := Some p\<rparr>"
      define e3 where "e3 = snd (check_circuit_breaker p e2)"
      from m s False obtain e4 where c: "check_pending_stop_orders n e3 = Inr e4"
        and e': "e' = e4\<lparr>trade_history := trade_history e4 @ trades,
                      total_trades := total_trades e4 + int (length trades)\<rparr>"
        by (auto simp: Let_def p_def e2_def e3_def split: sum.splits)
      from IH2[OF c] obtain st where st: "stops_effect e3 e4 (pending_ids e3) st" ..
      have cb: "check_circuit_breaker p e2 = (fst (check_circuit_breaker p e2), e3)"
        by (simp add: e3_def)
      note f3 = check_circuit_breaker_frame[OF cb]
      have pid: "pending_ids e3 = pending_ids e"
        using f3 fr by (simp add: pending_ids_def e2_def)
      have th3: "trade_history e3 = trade_history e" using f3 fr by (simp add: e2_def)
      have l3: "last_traded_price e3 = Some p" using f3 by (simp add: e2_def)
      have h3: "is_halted e \<longrightarrow> is_halted e3" "trading_phase e = HALTED \<longrightarrow> trading_phase e3 = HALTED"
        using f3 fr by (simp_all add: e2_def)
      have bh: "breaker_hit e trades \<longrightarrow> is_halted e3 \<and> trading_phase e3 = HALTED"
      proof
        assume "breaker_hit e trades"
        then have "breaker_hit e2 trades" using fr
          by (auto simp: breaker_hit_def e2_def split: option.splits)
        from check_circuit_breaker_hit[OF this] show "is_halted e3 \<and> trading_phase e3 = HALTED"
          by (simp add: e3_def p_def)
      qed
      have "match_effect n ord e trades ord' e' st"
        unfolding match_effect_def
        using s st pid th3 l3 h3 bh False e' unfolding stops_effect_def
        by (auto simp: pending_ids_def p_def)
      then show ?thesis ..
    qed
  qed
  have P2: "\<exists>st. stops_effect e e' (pending_ids e) st"
    if c: "check_pending_stop_orders (Suc n) e = Inr e'" for e e'
  proof -
    obtain trig pend where sc: "scan_pending_stops e = (trig, pend)" by (cases "scan_pending_stops e")
    define e0 where "e0 = e\<lparr>pending_stop_orders := pend\<rparr>"
    from c sc have pt: "process_triggered n trig e0 = Inr e'" by (simp add: e0_def)
    from IH3[OF pt] obtain st where st: "stops_effect e0 e' (pending_ids e0 \<union> order_id ` set trig) st" ..
    from scan_pending_stops_sub[OF sc] have sub: "order_id ` set trig \<subseteq> pending_ids e"
      "pending_ids e0 \<subseteq> pending_ids e" by (simp_all add: pending_ids_def e0_def)
    have a: "trade_history e' = trade_history e @ st"
      and b: "\<forall>t\<in>set st. stop_party (pending_ids e0 \<union> order_id ` set trig) t"
      and c: "pending_ids e' \<subseteq> pending_ids e0"
      and d: "if st = [] then last_traded_price e' = last_traded_price e
              else \<exists>t\<in>set st. last_traded_price e' = Some (trade_price t)"
      and h: "is_halted e \<longrightarrow> is_halted e'" "trading_phase e = HALTED \<longrightarrow> trading_phase e' = HALTED"
      using st unfolding stops_effect_def by (simp_all add: e0_def)
    from b sub have b': "\<forall>t\<in>set st. stop_party (pending_ids e) t"
      by (meson Un_least stop_party_mono)
    from c sub have c': "pending_ids e' \<subseteq> pending_ids e" by blast
    have "stops_effect e e' (pending_ids e) st"
      unfolding stops_effect_def using a b' c' d h by simp
    then show ?thesis ..
  qed
  have P3: "\<exists>st. stops_effect e e' (pending_ids e \<union> order_id ` set ords) st"
    if c: "process_triggered (Suc n) ords e = Inr e'" for ords e e'
  proof (cases ords)
    case Nil
    with c have "e' = e" by simp
    then show ?thesis using stops_effect_refl by blast
  next
    case (Cons ord rest)
    with c obtain ts o' e1 where m: "match_order n (activate_stop ord) e = Inr (ts, o', e1)"
      and r: "process_triggered n rest e1 = Inr e'"
      by (auto split: sum.splits)
    let ?S = "pending_ids e \<union> order_id ` set ords"
    from IH1[OF m] obtain st1 where "match_effect (n - 1) (activate_stop ord) e ts o' e1 st1" ..
    then have s1: "stops_effect e e1 ?S (st1 @ ts)"
      by (rule match_effect_stops) (auto simp: Cons)
    from IH3[OF r] obtain st2 where
      s2: "stops_effect e1 e' (pending_ids e1 \<union> order_id ` set rest) st2" ..
    from s1 have "pending_ids e1 \<subseteq> pending_ids e" by (simp add: stops_effect_def)
    then have sub: "pending_ids e1 \<union> order_id ` set rest \<subseteq> ?S" using Cons by auto
    from stops_effect_trans[OF s1 s2 sub] show ?thesis by blast
  qed
  show ?case using P1 P2 P3 by simp
qed

lemma order_effect_none:
  "trade_history e' = trade_history e \<Longrightarrow> last_traded_price e' = last_traded_price e \<Longrightarrow>
   order_effect ord e [] e' []"
  by (simp add: order_effect_def breaker_hit_def)

lemma match_effect_order:
  assumes "match_effect n ord0 e trades ord' e' st"
    and "order_id ord0 = order_id ord" "side ord0 = side ord"
  shows "order_effect ord e trades e' st"
proof -
  from assms(1) obtain e1 where m: "nse_match_side n ord0 e = Inr (trades, ord', e1)"
    by (auto simp: match_effect_def)
  from nse_match_side_frame[OF m] assms(2,3)
  have tp: "\<forall>t\<in>set trades. party (side ord = BUY) t = order_id ord" by simp
  from assms(1) have rest: "trade_history e' = trade_history e @ st @ trades"
    "\<forall>t\<in>set st. stop_party (pending_ids e) t"
    "if st = []
       then last_traded_price e' =
              (if trades = [] then last_traded_price e else Some (trade_price (last trades)))
       else \<exists>t\<in>set st. last_traded_price e' = Some (trade_price t)"
    "breaker_hit e trades \<longrightarrow> is_halted e' \<and> trading_phase e' = HALTED"
    by (simp_all add: match_effect_def)
  show ?thesis unfolding order_effect_def using tp rest by simp
qed

lemma match_order_effect:
  assumes "match_order n ord0 e = Inr (trades, ord', e')"
    and "order_id ord0 = order_id ord" "side ord0 = side ord"
  shows "\<exists>st. order_effect ord e trades e' st"
proof -
  from stops_mutual[of n] assms(1) obtain st where "match_effect (n - 1) ord0 e trades ord' e' st"
    by blast
  from match_effect_order[OF this assms(2,3)] show ?thesis ..
qed

lemma order_effect_frame:
  assumes "order_effect ord e trades e' st"
    and "trade_history e2 = trade_history e'" "last_traded_price e2 = last_traded_price e'"
    and "is_halted e2 = is_halted e'" "trading_phase e2 = trading_phase e'"
  shows "order_effect ord e trades e2 st"
  using assms unfolding order_effect_def by simp

lemma nse_add_to_order_book_frame:
  "trade_history (nse_add_to_order_book ord e) = trade_history e \<and>
   last_traded_price (nse_add_to_order_book ord e) = last_traded_price e \<and>
   is_halted (nse_add_to_order_book ord e) = is_halted e \<and>
   trading_phase (nse_add_to_order_book ord e) = trading_phase e"
  by (simp add: nse_add_to_order_book_def)

lemma handle_continuous_order_effect:
  assumes "handle_continuous_order n ord e = Inr (trades, ord', e')"
  shows "\<exists>st. order_effect ord e trades e' st"
proof -
  consider (stop) "order_type ord \<in> {STOP_LOSS, STOP_LOSS_MARKET}"
    | (fok) "order_type ord \<notin> {STOP_LOSS, STOP_LOSS_MARKET}" "order_type ord = FOK"
    | (reg) "order_type ord \<notin> {STOP_LOSS, STOP_LOSS_MARKET}" "order_type ord \<noteq> FOK"
    by blast
  then show ?thesis
  proof cases
    case stop
    with assms have h: "handle_stop_loss_order n ord e = Inr (trades, ord', e')"
      by (simp add: handle_continuous_order_def)
    show ?thesis
    proof (cases "is_stop_triggered e ord")
      case True
      with h have "match_order n (activate_stop ord) e = Inr (trades, ord', e')"
        by (simp add: handle_stop_loss_order_def)
      then show ?thesis
        by (rule match_order_effect) (simp_all add: activate_stop_def Let_def)
    next
      case False
      with h have "trades = []" "trade_history e' = trade_history e"
        "last_traded_price e' = last_traded_price e"
        by (auto simp: handle_stop_loss_order_def)
      then show ?thesis using order_effect_none by blast
    qed
  next
    case fok
    with assms have h: "handle_fok_order n ord e = Inr (trades, ord', e')"
      by (simp add: handle_continuous_order_def)
    then consider "match_order n ord e = Inr (trades, ord', e')" | "trades = [] \<and> e' = e"
      by (auto simp: handle_fok_order_def Let_def split: if_splits)
    then show ?thesis
    proof cases
      case 1
      then show ?thesis by (rule match_order_effect) simp_all
    next
      case 2
      then show ?thesis using order_effect_none by blast
    qed
  next
    case reg
    with assms obtain e1 where m: "match_order n ord e = Inr (trades, ord', e1)"
      and e': "e' = (if remaining_quantity ord' > 0
                    then if order_type ord' = LIMIT then nse_add_to_order_book ord' e1
                         else if order_type ord' = ICEBERG then add_iceberg_to_book ord' e1
                         else e1
                    else e1)"
      by (auto simp: handle_continuous_order_def split: sum.splits)
    from match_order_effect[OF m] obtain st where st: "order_effect ord e trades e1 st" by blast
    have "order_effect ord e trades e' st"
      by (rule order_effect_frame[OF st])
         (simp_all add: e' add_iceberg_to_book_def nse_add_to_order_book_frame)
    then show ?thesis ..
  qed
qed

lemma order_effect_pre:
  assumes "order_effect ord1 e1 trades e' st"
    and "trade_history e1 = trade_history e" "last_traded_price e1 = last_traded_price e"
    and "pending_stop_orders e1 = pending_stop_orders e"
    and "reference_price e1 = reference_price e" "circuit_breaker_pct e1 = circuit_breaker_pct e"
    and "order_id ord1 = order_id ord" "side ord1 = side ord"
  shows "order_effect ord e trades e' st"
  using assms unfolding order_effect_def breaker_hit_def pending_ids_def
  by (auto split: option.splits)

lemma process_order_effect:
  assumes "process_order n now ord e = Inr (trades, ord', e')"
  shows "\<exists>st. order_effect ord e trades e' st"
proof -
  define e1 where "e1 = e\<lparr>total_orders_processed := total_orders_processed e + 1,
                 order_history := order_history e @ [order_id ord]\<rparr>"
  define ord1 where "ord1 = (if order_type ord \<in> {LIMIT, STOP_LOSS}
                           then ord\<lparr>price := validate_tick_size e1 (price ord)\<rparr> else ord)"
  have o1: "order_id ord1 = order_id ord" "side ord1 = side ord" by (simp_all add: ord1_def)
  from assms consider
      (drop) "trades = []" "trade_history e' = trade_history e"
             "last_traded_price e' = last_traded_price e"
    | (cont) "handle_continuous_order n ord1 e1 = Inr (trades, ord', e')"
    unfolding process_order_def Let_def handle_auction_order_def e1_def[symmetric] ord1_def[symmetric]
    by (auto simp: e1_def split: if_splits)
  then show ?thesis
  proof cases
    case drop
    then show ?thesis using order_effect_none by blast
  next
    case cont
    from handle_continuous_order_effect[OF this] obtain st where
      "order_effect ord1 e1 trades e' st" ..
    then have "order_effect ord e trades e' st"
      by (rule order_effect_pre) (simp_all add: e1_def o1)
    then show ?thesis ..
  qed
qed



lemma process_order_halted:
  "is_halted e \<Longrightarrow>
   process_order fuel now ord e =
     Inr ([], ord, e\<lparr>total_orders_processed := total_orders_processed e + 1,
                      order_history := order_history e @ [order_id ord]\<rparr>)"
  by (simp add: process_order_def)

lemma nse_process_all_halted:
  "is_halted e \<Longrightarrow>
   \<exists>e'. nse_process_all fuel now ords e = Inr (map (\<lambda>_. []) ords, ords, e')
      \<and> is_halted e' \<and> trade_history e' = trade_history e
      \<and> bids e' = bids e \<and> asks e' = asks e
      \<and> pending_stop_orders e' = pending_stop_orders e"
proof (induction ords arbitrary: e)
  case Nil
  then show ?case by simp
next
  case (Cons ord rest)
  define e1 where "e1 = e\<lparr>total_orders_processed := total_orders_processed e + 1,
                      order_history := order_history e @ [order_id ord]\<rparr>"
  have p: "process_order fuel now ord e = Inr ([], ord, e1)"
    using Cons.prems by (simp add: process_order_halted e1_def)
  have h1: "is_halted e1" using Cons.prems by (simp add: e1_def)
  from Cons.IH[OF h1] obtain e' where
    r: "nse_process_all fuel now rest e1 = Inr (map (\<lambda>_. []) rest, rest, e')"
    and f: "is_halted e'" "trade_history e' = trade_history e1" "bids e' = bids e1"
       "asks e' = asks e1" "pending_stop_orders e' = pending_stop_orders e1"
    by blast
  have "nse_process_all fuel now (ord # rest) e = Inr (map (\<lambda>_. []) (ord # rest), ord # rest, e')"
    using p r by simp
  moreover have "trade_history e' = trade_history e" "bids e' = bids e" "asks e' = asks e"
    "pending_stop_orders e' = pending_stop_orders e"
    using f by (simp_all add: e1_def)
  ultimately show ?case using f(1) by blast
qed

text \<open>
  C4 (circuit breaker), as the code has it. The breaker is tested once per matched order,
  after its matching loop has ended, on the price of the order's last trade, and the
  percentage it compares is the float expression \<open>abs(p - ref) / ref * 100\<close> with its
  roundings (\<open>price_change_pct\<close>). (1) When \<open>process_order\<close> returns a non-empty
  trade list and that percentage, for the price of the last trade of the list and the
  (non-zero) reference price, is at least \<open>circuit_breaker_pct\<close>, the engine it leaves is
  halted and in phase \<open>HALTED\<close>. (2) On a halted engine every following sequence of
  \<open>process_order\<close> calls returns an empty trade list for each order and leaves the trade
  history, both book sides and the pending stop orders as they were, the engine still
  halted. (3) \<open>resume_trading\<close> ends the halt and sets the phase to \<open>CONTINUOUS\<close>.
  What the stop orders do that the halting trade triggers is not part of this statement.
\<close>

theorem C4_halt_after_order:
  "(process_order fuel now ord e = Inr (trades, ord', e') \<and> trades \<noteq> []
      \<and> reference_price e = Some r \<and> r \<noteq> 0
      \<and> float_ge (price_change_pct (trade_price (last trades)) r) (circuit_breaker_pct e)
     \<longrightarrow> is_halted e' \<and> trading_phase e' = HALTED)
   \<and> (is_halted e \<longrightarrow>
        (\<exists>e2. nse_process_all fuel now ords e = Inr (map (\<lambda>_. []) ords, ords, e2)
            \<and> is_halted e2 \<and> trade_history e2 = trade_history e
            \<and> bids e2 = bids e \<and> asks e2 = asks e
            \<and> pending_stop_orders e2 = pending_stop_orders e))
   \<and> \<not> is_halted (resume_trading e) \<and> trading_phase (resume_trading e) = CONTINUOUS"
proof -
  have a: "is_halted e' \<and> trading_phase e' = HALTED"
    if p: "process_order fuel now ord e = Inr (trades, ord', e')" and t: "trades \<noteq> []"
      and r: "reference_price e = Some r" "r \<noteq> 0"
      and c: "float_ge (price_change_pct (trade_price (last trades)) r) (circuit_breaker_pct e)"
  proof -
    from process_order_effect[OF p] obtain st where "order_effect ord e trades e' st" ..
    moreover have "breaker_hit e trades" using t r c by (simp add: breaker_hit_def)
    ultimately show ?thesis by (simp add: order_effect_def)
  qed
  have b: "\<not> is_halted (resume_trading e) \<and> trading_phase (resume_trading e) = CONTINUOUS"
    by (simp add: resume_trading_def)
  show ?thesis using a b nse_process_all_halted[of e fuel now ords] by blast
qed

text \<open>
  The theorem at a concrete run (the scenario of the repository's circuit-breaker test):
  reference price 100, threshold 10 percent; SELL s1 at 89 rests; BUY b1 at 89 trades at 89,
  a deviation of 11 percent. The engine is halted, the next two orders trade nothing, and
  \<open>resume_trading\<close> ends the halt.
\<close>

theorem C4_witness:
  "case process_order 8 0 (new_order ''b1'' BUY 89 100 2 LIMIT) halt_scenario of
     Inl err \<Rightarrow> False
   | Inr (trades, ord', e') \<Rightarrow>
       trades = [\<lparr>buy_order_id = ''b1'', sell_order_id = ''s1'',
                  trade_price = 89, trade_quantity = 100\<rparr>]
     \<and> reference_price halt_scenario = Some 100
     \<and> circuit_breaker_pct halt_scenario = 10
     \<and> float_ge (price_change_pct 89 100) 10
     \<and> \<not> is_halted halt_scenario
     \<and> is_halted e' \<and> trading_phase e' = HALTED
     \<and> (\<exists>e2. nse_process_all 8 0
                 [new_order ''s2'' SELL 100 10 3 LIMIT, new_order ''b2'' BUY 100 10 4 LIMIT] e'
               = Inr ([[], []],
                      [new_order ''s2'' SELL 100 10 3 LIMIT, new_order ''b2'' BUY 100 10 4 LIMIT],
                      e2)
            \<and> is_halted e2 \<and> trade_history e2 = trade_history e'
            \<and> bids e2 = bids e' \<and> asks e2 = asks e')
     \<and> \<not> is_halted (resume_trading e')"
proof -
  define r where "r = process_order 8 0 (new_order ''b1'' BUY 89 100 2 LIMIT) halt_scenario"
  have ev: "case r of
     Inl err \<Rightarrow> False
   | Inr (trades, ord', e') \<Rightarrow>
       trades = [\<lparr>buy_order_id = ''b1'', sell_order_id = ''s1'',
                  trade_price = 89, trade_quantity = 100\<rparr>]
     \<and> reference_price halt_scenario = Some 100
     \<and> circuit_breaker_pct halt_scenario = 10
     \<and> float_ge (price_change_pct 89 100) 10
     \<and> \<not> is_halted halt_scenario"
    unfolding r_def by code_simp
  then obtain trades ord' e' where R: "r = Inr (trades, ord', e')" by (cases r) auto
  from ev R have facts:
     "trades = [\<lparr>buy_order_id = ''b1'', sell_order_id = ''s1'',
                  trade_price = 89, trade_quantity = 100\<rparr>]"
     "reference_price halt_scenario = Some 100"
     "circuit_breaker_pct halt_scenario = 10"
     "float_ge (price_change_pct 89 100) 10"
     "\<not> is_halted halt_scenario"
    by simp_all
  note thm1 = C4_halt_after_order[of 8 0 "new_order ''b1'' BUY 89 100 2 LIMIT" halt_scenario
      trades ord' e' 100]
  have h: "is_halted e' \<and> trading_phase e' = HALTED"
    using thm1 R[unfolded r_def] facts by simp
  note thm2 = C4_halt_after_order[of 8 0 "new_order ''b1'' BUY 89 100 2 LIMIT" e'
      trades ord' e' 100
      "[new_order ''s2'' SELL 100 10 3 LIMIT, new_order ''b2'' BUY 100 10 4 LIMIT]"]
  from thm2 h have
    "(\<exists>e2. nse_process_all 8 0
                 [new_order ''s2'' SELL 100 10 3 LIMIT, new_order ''b2'' BUY 100 10 4 LIMIT] e'
               = Inr ([[], []],
                      [new_order ''s2'' SELL 100 10 3 LIMIT, new_order ''b2'' BUY 100 10 4 LIMIT],
                      e2)
            \<and> is_halted e2 \<and> trade_history e2 = trade_history e'
            \<and> bids e2 = bids e' \<and> asks e2 = asks e')
     \<and> \<not> is_halted (resume_trading e')"
    by auto
  with facts h R show ?thesis unfolding r_def[symmetric] by simp
qed

text \<open>
  C4 as stated fails, in three runs with reference price 100. (a) Threshold 10 percent;
  SELL s1 at 111 and SELL s2 at 112 rest. BUY b1 at 112 for 20 trades at 111, which deviates
  by 11 percent, and the same order then trades again at 112: the engine was not halted
  immediately after the first trade, and the breaker was counted once, after the loop.
  (b) Threshold 10 percent; SELL s1 at 89 and SELL s2 at 95 rest. BUY b1 at 95 for 20 trades
  at 89, a deviation of 11 percent, and then at 95, a deviation of 5 percent: only the last
  trade is tested, the engine is not halted, no breaker hit is counted, and the next two
  orders trade with each other. (c) Threshold 29 percent, band 50 percent; SELL s1 at 129
  rests and BUY b1 trades with it at 129. The deviation is 29 percent, which is at least the
  threshold, but the float expression gives 28.999999999999996 (29/100 is rounded down and
  the product with 100 is again rounded), and the engine is not halted.
\<close>

theorem C4_breaker_tested_once_on_last_trade:
  "(case nse_process_all 8 0
          [new_order ''s1'' SELL 111 10 1 LIMIT,
           new_order ''s2'' SELL 112 10 2 LIMIT,
           new_order ''b1'' BUY 112 20 3 LIMIT]
          (set_reference_price 100 (new_NSEMatchingEngine (1 / 20) 10 20 False)) of
     Inl err \<Rightarrow> False
   | Inr (tss, ords, e) \<Rightarrow>
       tss = [[], [],
              [\<lparr>buy_order_id = ''b1'', sell_order_id = ''s1'',
                trade_price = 111, trade_quantity = 10\<rparr>,
               \<lparr>buy_order_id = ''b1'', sell_order_id = ''s2'',
                trade_price = 112, trade_quantity = 10\<rparr>]]
       \<and> reference_price e = Some 100 \<and> circuit_breaker_pct e = 10
       \<and> float_ge (price_change_pct 111 100) 10
       \<and> circuit_breaker_hits e = 1)
 \<and> (case nse_process_all 8 0
          [new_order ''s1'' SELL 89 10 1 LIMIT,
           new_order ''s2'' SELL 95 10 2 LIMIT,
           new_order ''b1'' BUY 95 20 3 LIMIT,
           new_order ''s3'' SELL 100 5 4 LIMIT,
           new_order ''b2'' BUY 100 5 5 LIMIT]
          (set_reference_price 100 (new_NSEMatchingEngine (1 / 20) 10 20 False)) of
     Inl err \<Rightarrow> False
   | Inr (tss, ords, e) \<Rightarrow>
       tss = [[], [],
              [\<lparr>buy_order_id = ''b1'', sell_order_id = ''s1'',
                trade_price = 89, trade_quantity = 10\<rparr>,
               \<lparr>buy_order_id = ''b1'', sell_order_id = ''s2'',
                trade_price = 95, trade_quantity = 10\<rparr>],
              [],
              [\<lparr>buy_order_id = ''b2'', sell_order_id = ''s3'',
                trade_price = 100, trade_quantity = 5\<rparr>]]
       \<and> reference_price e = Some 100 \<and> circuit_breaker_pct e = 10
       \<and> float_ge (price_change_pct 89 100) 10
       \<and> \<not> is_halted e \<and> trading_phase e = CONTINUOUS
       \<and> circuit_breaker_hits e = 0)
 \<and> (case nse_process_all 8 0
          [new_order ''s1'' SELL 129 10 1 LIMIT,
           new_order ''b1'' BUY 129 10 2 LIMIT]
          (set_reference_price 100 (new_NSEMatchingEngine (1 / 20) 29 50 False)) of
     Inl err \<Rightarrow> False
   | Inr (tss, ords, e) \<Rightarrow>
       tss = [[],
              [\<lparr>buy_order_id = ''b1'', sell_order_id = ''s1'',
                trade_price = 129, trade_quantity = 10\<rparr>]]
       \<and> reference_price e = Some 100 \<and> circuit_breaker_pct e = 29
       \<and> \<bar>129 - 100\<bar> / 100 * 100 = (29 :: rat)
       \<and> price_change_pct 129 100 = Double (8162774324609023 / 281474976710656)
       \<and> \<not> is_halted e \<and> trading_phase e = CONTINUOUS
       \<and> circuit_breaker_hits e = 0)"
  by code_simp

text \<open>
  The pending stop orders are scanned after the breaker has halted the engine: here the
  trade of b1 at 111 halts the engine and triggers the stop order st, which then buys from
  s2 at 112 on the halted engine.
\<close>

lemma halted_engine_matches_triggered_stop:
  "case nse_process_all 8 0
          [new_order ''s1'' SELL 111 10 1 LIMIT,
           new_order ''s2'' SELL 112 10 2 LIMIT,
           (new_order ''st'' BUY 0 10 3 STOP_LOSS_MARKET)\<lparr>stop_price := Some 105\<rparr>,
           new_order ''b1'' BUY 111 10 4 LIMIT]
          (set_reference_price 100 (new_NSEMatchingEngine (1 / 20) 10 20 False)) of
     Inl err \<Rightarrow> False
   | Inr (tss, ords, e) \<Rightarrow>
       last tss = [\<lparr>buy_order_id = ''b1'', sell_order_id = ''s1'',
                    trade_price = 111, trade_quantity = 10\<rparr>]
       \<and> trade_history e =
           [\<lparr>buy_order_id = ''st'', sell_order_id = ''s2'',
             trade_price = 112, trade_quantity = 10\<rparr>,
            \<lparr>buy_order_id = ''b1'', sell_order_id = ''s1'',
             trade_price = 111, trade_quantity = 10\<rparr>]
       \<and> is_halted e \<and> circuit_breaker_hits e = 2"
  by code_simp

text \<open>
  C6 (regime transition) at a failing input. A new adaptive engine is in regime \<open>NORMAL\<close>;
  the detector reports \<open>HIGH_VOLATILITY\<close>. The transition sets the current regime and
  raises the counter by one, and the entry it appends to the history has
  \<open>HIGH_VOLATILITY\<close>, the new regime, in its from-field: \<open>_transition_regime\<close> reads
  \<open>self.current_regime\<close> for the entry after it has overwritten it.
\<close>

theorem C6_from_field_is_the_new_regime:
  "current_regime (new_AdaptiveMatchingEngine 0) = NORMAL
   \<and> (let e' = handle_detected_regime HIGH_VOLATILITY 1 2 (new_AdaptiveMatchingEngine 0)
      in current_regime e' = HIGH_VOLATILITY
       \<and> regime_change_count e' = 1
       \<and> regime_history e' =
           [\<lparr>change_timestamp = 2, from_regime = HIGH_VOLATILITY,
             to_regime = HIGH_VOLATILITY\<rparr>])"
  by code_simp

text \<open>The sharded adaptive engine keeps the old regime in a local variable first, and its
  entry is the one the claim describes.\<close>

lemma sharded_transition_records_old_regime:
  "new_regime \<noteq> sam_current_regime e \<Longrightarrow>
   sam_current_regime (sharded_handle_detected_regime new_regime t1 t2 e) = new_regime
   \<and> sam_regime_change_count (sharded_handle_detected_regime new_regime t1 t2 e)
       = sam_regime_change_count e + 1
   \<and> sam_regime_history (sharded_handle_detected_regime new_regime t1 t2 e)
       = sam_regime_history e @
           [\<lparr>change_timestamp = t2, from_regime = sam_current_regime e,
             to_regime = new_regime\<rparr>]"
  by (simp add: sharded_handle_detected_regime_def sharded_transition_regime_def Let_def)

lemma adaptive_transition_general:
  "new_regime \<noteq> current_regime e \<Longrightarrow>
   current_regime (handle_detected_regime new_regime t1 t2 e) = new_regime
   \<and> regime_change_count (handle_detected_regime new_regime t1 t2 e)
       = regime_change_count e + 1
   \<and> regime_history (handle_detected_regime new_regime t1 t2 e)
       = regime_history e @
           [\<lparr>change_timestamp = t2, from_regime = new_regime, to_regime = new_regime\<rparr>]"
  by (simp add: handle_detected_regime_def transition_regime_def Let_def)

lemma buy_volume_append_at_price:
  "buy_volume (append_at_price x d) p =
     buy_volume d p + (if p \<le> price (snd x) then quantity (snd x) else 0)"
  unfolding append_at_price_def buy_volume_def orders_quantity_def
  by (induction d) auto

lemma sell_volume_append_at_price:
  "sell_volume (append_at_price x d) p =
     sell_volume d p + (if price (snd x) \<le> p then quantity (snd x) else 0)"
  unfolding append_at_price_def sell_volume_def orders_quantity_def
  by (induction d) auto

lemma keys_append_at_price:
  "fst ` set (append_at_price x d) = insert (price (snd x)) (fst ` set d)"
  unfolding append_at_price_def by (rule dom_map_default)

lemma buy_volume_fold:
  "buy_volume (fold append_at_price xs d) p =
     buy_volume d p + (\<Sum>x\<leftarrow>xs. if p \<le> price (snd x) then quantity (snd x) else 0)"
  by (induction xs arbitrary: d) (simp_all add: buy_volume_append_at_price)

lemma sell_volume_fold:
  "sell_volume (fold append_at_price xs d) p =
     sell_volume d p + (\<Sum>x\<leftarrow>xs. if price (snd x) \<le> p then quantity (snd x) else 0)"
  by (induction xs arbitrary: d) (simp_all add: sell_volume_append_at_price)

lemma keys_fold:
  "fst ` set (fold append_at_price xs d) = fst ` set d \<union> (\<lambda>x. price (snd x)) ` set xs"
  by (induction xs arbitrary: d) (auto simp: keys_append_at_price)

lemma sum_filter_enumerate:
  "(\<Sum>x\<leftarrow>filter (\<lambda>x. Q (snd x)) (enumerate n os). g (snd x)) = (\<Sum>ord\<leftarrow>filter Q os. g ord)"
  by (induction os arbitrary: n) auto

lemma set_filter_enumerate:
  "(\<lambda>x. g (snd x)) ` set (filter (\<lambda>x. Q (snd x)) (enumerate n os)) = g ` set (filter Q os)"
  by (induction os arbitrary: n) auto

lemma buy_volume_buffer:
  "buy_volume (buy_orders_by_price os) p = cumulative_buy_volume os p"
proof -
  have "buy_volume (buy_orders_by_price os) p
      = (\<Sum>x\<leftarrow>filter (\<lambda>x. side (snd x) = BUY) (enumerate 0 os).
           if p \<le> price (snd x) then quantity (snd x) else 0)"
    unfolding buy_orders_by_price_def buy_volume_fold by (simp add: buy_volume_def)
  also have "\<dots> = (\<Sum>ord\<leftarrow>filter (\<lambda>ord. side ord = BUY) os.
                      if p \<le> price ord then quantity ord else 0)"
    by (rule sum_filter_enumerate[where Q = "\<lambda>ord. side ord = BUY"
          and g = "\<lambda>ord. if p \<le> price ord then quantity ord else 0"])
  also have "\<dots> = cumulative_buy_volume os p"
    unfolding cumulative_buy_volume_def by (induction os) auto
  finally show ?thesis .
qed

lemma sell_volume_buffer:
  "sell_volume (sell_orders_by_price os) p = cumulative_sell_volume os p"
proof -
  have "sell_volume (sell_orders_by_price os) p
      = (\<Sum>x\<leftarrow>filter (\<lambda>x. side (snd x) \<noteq> BUY) (enumerate 0 os).
           if price (snd x) \<le> p then quantity (snd x) else 0)"
    unfolding sell_orders_by_price_def sell_volume_fold by (simp add: sell_volume_def)
  also have "\<dots> = (\<Sum>ord\<leftarrow>filter (\<lambda>ord. side ord \<noteq> BUY) os.
                      if price ord \<le> p then quantity ord else 0)"
    by (rule sum_filter_enumerate[where Q = "\<lambda>ord. side ord \<noteq> BUY"
          and g = "\<lambda>ord. if price ord \<le> p then quantity ord else 0"])
  also have "\<dots> = cumulative_sell_volume os p"
    unfolding cumulative_sell_volume_def
  proof (induction os)
    case Nil show ?case by simp
  next
    case (Cons a os)
    show ?case using Cons by (cases "side a") auto
  qed
  finally show ?thesis .
qed

lemma tradeable_volume_buffer:
  "tradeable_volume (buy_orders_by_price os) (sell_orders_by_price os) p = tradeable os p"
  by (simp add: tradeable_volume_def tradeable_def buy_volume_buffer sell_volume_buffer)

lemma all_prices_buffer:
  "set (all_prices (buy_orders_by_price os) (sell_orders_by_price os)) = price ` set os"
proof -
  have b: "fst ` set (buy_orders_by_price os) = price ` set (filter (\<lambda>ord. side ord = BUY) os)"
    unfolding buy_orders_by_price_def keys_fold
    using set_filter_enumerate[where Q = "\<lambda>ord. side ord = BUY" and g = price and n = 0 and os = os]
    by simp
  have s: "fst ` set (sell_orders_by_price os)
             = price ` set (filter (\<lambda>ord. side ord \<noteq> BUY) os)"
    unfolding sell_orders_by_price_def keys_fold
    using set_filter_enumerate[where Q = "\<lambda>ord. side ord \<noteq> BUY" and g = price and n = 0 and os = os]
    by simp
  have "set (all_prices (buy_orders_by_price os) (sell_orders_by_price os))
          = fst ` set (buy_orders_by_price os) \<union> fst ` set (sell_orders_by_price os)"
    by (simp add: all_prices_def)
  also have "\<dots> = price ` set os" unfolding b s by auto
  finally show ?thesis .
qed

lemma all_prices_sorted: "sorted (all_prices b s)"
  by (simp add: all_prices_def)

lemma equilibrium_step_inv:
  assumes "equilibrium_inv ref (tradeable_volume b s) seen st"
    and "\<forall>q\<in>set seen. q \<le> p"
  shows "equilibrium_inv ref (tradeable_volume b s) (seen @ [p]) (equilibrium_step ref b s p st)"
proof -
  obtain best mv where st: "st = (best, mv)" by (cases st)
  let ?tv = "tradeable_volume b s"
  show ?thesis
  proof (cases best)
    case None
    with assms st have mv: "mv = 0" and le: "\<forall>q\<in>set seen. ?tv q \<le> 0"
      by (simp_all add: equilibrium_inv_def)
    show ?thesis
    proof (cases "?tv p > 0")
      case True
      then have "equilibrium_step ref b s p st = (Some p, ?tv p)"
        by (simp add: equilibrium_step_def st mv Let_def)
      then show ?thesis using True le by (auto simp: equilibrium_inv_def)
    next
      case False
      then have "equilibrium_step ref b s p st = (None, 0)"
        by (simp add: equilibrium_step_def st mv None Let_def)
      then show ?thesis using False le by (auto simp: equilibrium_inv_def)
    qed
  next
    case (Some bp)
    with assms st have bp: "bp \<in> set seen" and tvbp: "?tv bp = mv" and pos: "0 < mv"
      and le: "\<forall>q\<in>set seen. ?tv q \<le> mv"
      and tie: "\<forall>q\<in>set seen. ?tv q = mv \<longrightarrow>
              reference_distance ref bp < reference_distance ref q
            \<or> (reference_distance ref bp = reference_distance ref q \<and> bp \<le> q)"
      by (simp_all add: equilibrium_inv_def)
    from bp assms(2) have bpp: "bp \<le> p" by blast
    consider (gt) "?tv p > mv" | (lt) "?tv p < mv"
      | (swap) "?tv p = mv" "reference_distance ref p < reference_distance ref bp"
      | (keep) "?tv p = mv" "\<not> reference_distance ref p < reference_distance ref bp"
      by linarith
    then show ?thesis
    proof cases
      case gt
      then have "equilibrium_step ref b s p st = (Some p, ?tv p)"
        by (simp add: equilibrium_step_def st Let_def)
      then show ?thesis using gt le pos by (auto simp: equilibrium_inv_def)
    next
      case lt
      then have "equilibrium_step ref b s p st = (Some bp, mv)"
        by (simp add: equilibrium_step_def st Some Let_def split: option.splits)
      then show ?thesis using lt le pos bp tvbp tie by (auto simp: equilibrium_inv_def)
    next
      case swap
      from swap(2) obtain r where r: "ref = Some r" "r \<noteq> 0" "\<bar>p - r\<bar> < \<bar>bp - r\<bar>"
        by (auto simp: reference_distance_def split: option.splits if_splits)
      then have "equilibrium_step ref b s p st = (Some p, mv)"
        using swap(1) by (simp add: equilibrium_step_def st Some Let_def)
      moreover have "\<forall>q\<in>set seen. ?tv q = mv \<longrightarrow>
           reference_distance ref p < reference_distance ref q"
        using tie swap(2) by fastforce
      ultimately show ?thesis using swap(1) le pos by (auto simp: equilibrium_inv_def)
    next
      case keep
      have "equilibrium_step ref b s p st = (Some bp, mv)"
      proof (cases ref)
        case None
        then show ?thesis using keep(1) by (simp add: equilibrium_step_def st Some Let_def)
      next
        case (Some r)
        then show ?thesis using keep \<open>best = Some bp\<close>
          by (simp add: equilibrium_step_def st Let_def reference_distance_def split: if_splits)
      qed
      moreover have "reference_distance ref bp < reference_distance ref p
            \<or> (reference_distance ref bp = reference_distance ref p \<and> bp \<le> p)"
        using keep(2) bpp by linarith
      ultimately show ?thesis using keep(1) le pos bp tvbp tie by (auto simp: equilibrium_inv_def)
    qed
  qed
qed

lemma equilibrium_fold_inv:
  assumes "equilibrium_inv ref (tradeable_volume b s) seen st"
    and "sorted (seen @ ps)"
  shows "equilibrium_inv ref (tradeable_volume b s) (seen @ ps)
           (fold (equilibrium_step ref b s) ps st)"
  using assms
proof (induction ps arbitrary: seen st)
  case Nil
  then show ?case by simp
next
  case (Cons p ps)
  from Cons.prems(2) have le: "\<forall>q\<in>set seen. q \<le> p" by (auto simp: sorted_append)
  have "equilibrium_inv ref (tradeable_volume b s) (seen @ [p]) (equilibrium_step ref b s p st)"
    by (rule equilibrium_step_inv[OF Cons.prems(1) le])
  moreover have "sorted ((seen @ [p]) @ ps)" using Cons.prems(2) by simp
  ultimately have "equilibrium_inv ref (tradeable_volume b s) ((seen @ [p]) @ ps)
      (fold (equilibrium_step ref b s) ps (equilibrium_step ref b s p st))"
    by (rule Cons.IH)
  then show ?case by simp
qed

lemma find_equilibrium_price_inv:
  "equilibrium_inv ref (tradeable_volume b s) (all_prices b s) (find_equilibrium_price ref b s)"
proof (cases "all_prices b s = []")
  case True
  then show ?thesis by (simp add: find_equilibrium_price_def equilibrium_inv_def)
next
  case False
  have "equilibrium_inv ref (tradeable_volume b s) [] (None, 0)"
    by (simp add: equilibrium_inv_def)
  from equilibrium_fold_inv[OF this, of "all_prices b s"] all_prices_sorted[of b s]
  show ?thesis using False by (simp add: find_equilibrium_price_def)
qed

lemma auction_price_inv:
  "equilibrium_inv (reference_price e) (tradeable (auction_orders e))
     (sort (remdups (map price (auction_orders e))))
     (find_equilibrium_price (reference_price e)
            (buy_orders_by_price (auction_orders e))
            (sell_orders_by_price (auction_orders e)))"
proof -
  let ?b = "buy_orders_by_price (auction_orders e)"
  let ?s = "sell_orders_by_price (auction_orders e)"
  have tv: "tradeable_volume ?b ?s = tradeable (auction_orders e)"
    by (rule ext) (rule tradeable_volume_buffer)
  have "set (all_prices ?b ?s) = set (sort (remdups (map price (auction_orders e))))"
    by (simp add: all_prices_buffer)
  moreover have "equilibrium_inv (reference_price e) (tradeable_volume ?b ?s) (all_prices ?b ?s)
     (find_equilibrium_price (reference_price e) ?b ?s)"
    by (rule find_equilibrium_price_inv)
  ultimately show ?thesis unfolding tv equilibrium_inv_def by (auto split: option.splits)
qed

lemma auction_loop_trades:
  "auction_loop p bi si B S ts e = (ts', B', S', e') \<Longrightarrow>
   \<exists>new. ts' = ts @ new \<and> (\<forall>t\<in>set new. trade_price t = p)
        \<and> e' = e\<lparr>trade_history := trade_history e @ new,
                  total_trades := total_trades e + int (length new)\<rparr>"
proof (induction p bi si B S ts e arbitrary: ts' B' S' e' rule: auction_loop.induct)
  case (1 p bi si B S ts e)
  show ?case
  proof (cases "bi < length B \<and> si < length S")
    case False
    with "1.prems" have "ts' = ts" "e' = e"
      by (simp_all add: auction_loop.simps[of p bi si B S ts e])
    then show ?thesis by simp
  next
    case True
    define bo where "bo = snd (B ! bi)"
    define so where "so = snd (S ! si)"
    consider (skipb) "remaining_quantity bo = 0"
      | (skips) "remaining_quantity bo \<noteq> 0" "remaining_quantity so = 0"
      | (trade) "remaining_quantity bo \<noteq> 0" "remaining_quantity so \<noteq> 0"
      by blast
    then show ?thesis
    proof cases
      case skipb
      with "1.prems" True have "auction_loop p (bi + 1) si B S ts e = (ts', B', S', e')"
        by (simp add: auction_loop.simps[of p bi si B S ts e] bo_def Let_def)
      from "1.IH"(1)[OF True bo_def so_def skipb this] show ?thesis .
    next
      case skips
      with "1.prems" True have "auction_loop p bi (si + 1) B S ts e = (ts', B', S', e')"
        by (simp add: auction_loop.simps[of p bi si B S ts e] bo_def so_def Let_def)
      from "1.IH"(2)[OF True bo_def so_def skips this] show ?thesis .
    next
      case trade
      define q where "q = min (remaining_quantity bo) (remaining_quantity so)"
      define t where "t = \<lparr>buy_order_id = order_id bo, sell_order_id = order_id so,
                             trade_price = p, trade_quantity = q\<rparr>"
      define e1 where "e1 = e\<lparr>trade_history := trade_history e @ [t],
                               total_trades := total_trades e + 1\<rparr>"
      define bo' where "bo' = fill q bo"
      define so' where "so' = fill q so"
      define B1 where "B1 = B[bi := (fst (B ! bi), bo')]"
      define S1 where "S1 = S[si := (fst (S ! si), so')]"
      define bi' where "bi' = (if remaining_quantity bo' = 0 then bi + 1 else bi)"
      define si' where "si' = (if remaining_quantity so' = 0 then si + 1 else si)"
      from "1.prems" True trade
      have run: "auction_loop p bi' si' B1 S1 (ts @ [t]) e1 = (ts', B', S', e')"
        unfolding bi'_def si'_def B1_def S1_def bo'_def so'_def e1_def t_def q_def
        by (simp add: auction_loop.simps[of p bi si B S ts e] bo_def so_def Let_def)
      from "1.IH"(3)[OF True bo_def so_def trade q_def t_def e1_def bo'_def so'_def
                        B1_def S1_def, folded bi'_def si'_def, OF run]
      obtain new where new: "ts' = (ts @ [t]) @ new" "\<forall>t\<in>set new. trade_price t = p"
        "e' = e1\<lparr>trade_history := trade_history e1 @ new,
                  total_trades := total_trades e1 + int (length new)\<rparr>"
        by blast
      have "ts' = ts @ (t # new)" using new(1) by simp
      moreover have "\<forall>x\<in>set (t # new). trade_price x = p" using new(2) by (simp add: t_def)
      moreover have "e' = e\<lparr>trade_history := trade_history e @ (t # new),
                  total_trades := total_trades e + int (length (t # new))\<rparr>"
        using new(3) by (simp add: e1_def)
      ultimately show ?thesis by blast
    qed
  qed
qed

lemma execute_auction_at_price_trades:
  assumes "execute_auction_at_price p b s e = (trades, B', S', e')"
  shows "(\<forall>t\<in>set trades. trade_price t = p)
       \<and> e' = e\<lparr>trade_history := trade_history e @ trades,
                 total_trades := total_trades e + int (length trades)\<rparr>"
  using auction_loop_trades[OF assms[unfolded execute_auction_at_price_def Let_def]]
  by auto

lemma add_limit_orders_frame:
  "trade_history (add_limit_orders u os e) = trade_history e
 \<and> opening_price (add_limit_orders u os e) = opening_price e
 \<and> trading_phase (add_limit_orders u os e) = trading_phase e"
  unfolding add_limit_orders_def
  by (induction os arbitrary: e) (simp_all add: nse_add_to_order_book_def)

lemma update_price_bands_frame:
  "trade_history (update_price_bands e) = trade_history e
 \<and> opening_price (update_price_bands e) = opening_price e
 \<and> trading_phase (update_price_bands e) = trading_phase e"
  by (simp add: update_price_bands_def split: option.splits)

lemma execute_call_auction_none:
  assumes "auction_price e = None"
  shows "fst (execute_call_auction e) = []
       \<and> trade_history (snd (execute_call_auction e)) = trade_history e"
  using assms
  by (simp add: execute_call_auction_def auction_price_def Let_def add_limit_orders_frame)

lemma execute_call_auction_some:
  assumes "auction_price e = Some p" and "execute_call_auction e = (trades, e')"
  shows "(\<forall>t\<in>set trades. trade_price t = p)
       \<and> trade_history e' = trade_history e @ trades
       \<and> trading_phase e' = CONTINUOUS
       \<and> (trading_phase e = PRE_OPEN \<longrightarrow> opening_price e' = Some p)"
proof -
  let ?b = "buy_orders_by_price (auction_orders e)"
  let ?s = "sell_orders_by_price (auction_orders e)"
  have ne: "auction_orders e \<noteq> []"
  proof
    assume "auction_orders e = []"
    then have "auction_price e = None"
      by (simp add: auction_price_def find_equilibrium_price_def all_prices_def
            buy_orders_by_price_def sell_orders_by_price_def)
    with assms(1) show False by simp
  qed
  obtain ts B' S' e1 where ex: "execute_auction_at_price p ?b ?s e = (ts, B', S', e1)"
    by (cases "execute_auction_at_price p ?b ?s e") auto
  from execute_auction_at_price_trades[OF ex]
  have tp: "\<forall>t\<in>set ts. trade_price t = p"
    and e1: "e1 = e\<lparr>trade_history := trade_history e @ ts,
                 total_trades := total_trades e + int (length ts)\<rparr>" by simp_all
  define e2 where "e2 = (if trading_phase e1 = PRE_OPEN
                                   then (let e1' = e1\<lparr>opening_price := Some p,
                                                      last_traded_price := Some p\<rparr>
                                         in if reference_price e1' = None
                                            then update_price_bands
                                                   (e1'\<lparr>reference_price := Some p\<rparr>)
                                            else e1')
                                   else e1)"
  have e2: "trade_history e2 = trade_history e @ ts"
     "trading_phase e = PRE_OPEN \<longrightarrow> opening_price e2 = Some p"
    by (simp_all add: e2_def e1 Let_def update_price_bands_frame)
  from assms ne ex have res: "trades = ts"
    "e' = (add_limit_orders True (write_back (B' @ S') (auction_orders e2)) e2)
             \<lparr>auction_orders := [], trading_phase := CONTINUOUS\<rparr>"
    unfolding e2_def
    by (simp_all add: execute_call_auction_def auction_price_def Let_def)
  show ?thesis using tp e2 by (simp add: res add_limit_orders_frame)
qed

text \<open>
  C7 (call auction). Let \<open>os\<close> be the buffered orders and, for a price \<open>p\<close>,
  \<open>tradeable os p\<close> the smaller of the cumulative buy volume at prices from \<open>p\<close> upwards and
  the cumulative sell volume at prices up to \<open>p\<close>. The candidates are the prices of the
  buffered orders. \<open>execute_call_auction\<close> appends the trades it returns to the trade
  history. If no candidate has a positive tradeable volume there is no equilibrium price
  and no trade. Otherwise the equilibrium price \<open>p\<close> is a candidate, its tradeable volume
  is positive and the largest of all candidates, and among the candidates of that volume it
  is the one closest to the reference price, the lowest of them when several are equally
  close or when there is no (non-zero) reference price; every trade returned has the price
  \<open>p\<close>, and in the pre-open phase \<open>p\<close> becomes the opening price. In scenario S3 (buys
  102 x 100, 101 x 150, 100 x 200 against sells 100 x 120, 101 x 180, 102 x 150) the
  tradeable volumes at 100, 101 and 102 are 120, 250 and 100, the equilibrium price is 101,
  and the three trades (b1 with s1 for 100, b2 with s1 for 20, b2 with s2 for 130) are all
  at 101.
\<close>

theorem C7_call_auction_equilibrium:
  "(case execute_call_auction e of
      (trades, e') \<Rightarrow>
        trade_history e' = trade_history e @ trades
      \<and> (case auction_price e of
           None \<Rightarrow>
             trades = []
           \<and> (\<forall>ord\<in>set (auction_orders e).
                 tradeable (auction_orders e) (price ord) \<le> 0)
         | Some p \<Rightarrow>
             p \<in> price ` set (auction_orders e)
           \<and> 0 < tradeable (auction_orders e) p
           \<and> (\<forall>ord\<in>set (auction_orders e).
                 tradeable (auction_orders e) (price ord) \<le> tradeable (auction_orders e) p)
           \<and> (\<forall>ord\<in>set (auction_orders e).
                 tradeable (auction_orders e) (price ord) = tradeable (auction_orders e) p \<longrightarrow>
                   reference_distance (reference_price e) p
                     < reference_distance (reference_price e) (price ord)
                 \<or> (reference_distance (reference_price e) p
                       = reference_distance (reference_price e) (price ord)
                    \<and> p \<le> price ord))
           \<and> (\<forall>t\<in>set trades. trade_price t = p)
           \<and> (trading_phase e = PRE_OPEN \<longrightarrow> opening_price e' = Some p)))
 \<and> (auction_orders (auction_scenario None s3_orders) = s3_orders
    \<and> map (tradeable s3_orders) [100, 101, 102] = [120, 250, 100]
    \<and> auction_price (auction_scenario None s3_orders) = Some 101
    \<and> fst (execute_call_auction (auction_scenario None s3_orders)) =
        [\<lparr>buy_order_id = ''b1'', sell_order_id = ''s1'', trade_price = 101,
          trade_quantity = 100\<rparr>,
         \<lparr>buy_order_id = ''b2'', sell_order_id = ''s1'', trade_price = 101,
          trade_quantity = 20\<rparr>,
         \<lparr>buy_order_id = ''b2'', sell_order_id = ''s2'', trade_price = 101,
          trade_quantity = 130\<rparr>])"
proof -
  let ?os = "auction_orders e"
  let ?fe = "find_equilibrium_price (reference_price e)
               (buy_orders_by_price ?os) (sell_orders_by_price ?os)"
  obtain trades e' where ex: "execute_call_auction e = (trades, e')"
    by (cases "execute_call_auction e") auto
  have inv: "equilibrium_inv (reference_price e) (tradeable ?os)
               (sort (remdups (map price ?os))) ?fe"
    by (rule auction_price_inv)
  have general: "trade_history e' = trade_history e @ trades
      \<and> (case auction_price e of
           None \<Rightarrow>
             trades = []
           \<and> (\<forall>ord\<in>set ?os. tradeable ?os (price ord) \<le> 0)
         | Some p \<Rightarrow>
             p \<in> price ` set ?os
           \<and> 0 < tradeable ?os p
           \<and> (\<forall>ord\<in>set ?os. tradeable ?os (price ord) \<le> tradeable ?os p)
           \<and> (\<forall>ord\<in>set ?os.
                 tradeable ?os (price ord) = tradeable ?os p \<longrightarrow>
                   reference_distance (reference_price e) p
                     < reference_distance (reference_price e) (price ord)
                 \<or> (reference_distance (reference_price e) p
                       = reference_distance (reference_price e) (price ord)
                    \<and> p \<le> price ord))
           \<and> (\<forall>t\<in>set trades. trade_price t = p)
           \<and> (trading_phase e = PRE_OPEN \<longrightarrow> opening_price e' = Some p))"
  proof (cases "auction_price e")
    case None
    then have f: "fst ?fe = None" by (simp add: auction_price_def)
    from inv f have "\<forall>q\<in>set (sort (remdups (map price ?os))). tradeable ?os q \<le> 0"
      by (simp add: equilibrium_inv_def)
    then have "\<forall>ord\<in>set ?os. tradeable ?os (price ord) \<le> 0" by simp
    moreover from execute_call_auction_none[OF None] ex
    have "trades = []" "trade_history e' = trade_history e" by simp_all
    ultimately show ?thesis using None by simp
  next
    case (Some p)
    then have f: "fst ?fe = Some p" by (simp add: auction_price_def)
    from inv f have a: "p \<in> set (sort (remdups (map price ?os)))"
      and b: "tradeable ?os p = snd ?fe" and c: "0 < snd ?fe"
      and d: "\<forall>q\<in>set (sort (remdups (map price ?os))). tradeable ?os q \<le> snd ?fe"
      and t: "\<forall>q\<in>set (sort (remdups (map price ?os))). tradeable ?os q = snd ?fe \<longrightarrow>
              reference_distance (reference_price e) p < reference_distance (reference_price e) q
            \<or> (reference_distance (reference_price e) p
                  = reference_distance (reference_price e) q \<and> p \<le> q)"
      by (simp_all add: equilibrium_inv_def)
    from a have a': "p \<in> price ` set ?os" by simp
    from c b have c': "0 < tradeable ?os p" by simp
    from d b have d': "\<forall>ord\<in>set ?os. tradeable ?os (price ord) \<le> tradeable ?os p" by simp
    from t b have t': "\<forall>ord\<in>set ?os.
                 tradeable ?os (price ord) = tradeable ?os p \<longrightarrow>
                   reference_distance (reference_price e) p
                     < reference_distance (reference_price e) (price ord)
                 \<or> (reference_distance (reference_price e) p
                       = reference_distance (reference_price e) (price ord)
                    \<and> p \<le> price ord)" by simp
    from execute_call_auction_some[OF Some ex]
    have x: "\<forall>t\<in>set trades. trade_price t = p" "trade_history e' = trade_history e @ trades"
       "trading_phase e = PRE_OPEN \<longrightarrow> opening_price e' = Some p" by simp_all
    show ?thesis unfolding Some using a' c' d' t' x by simp
  qed
  have s3: "auction_orders (auction_scenario None s3_orders) = s3_orders
    \<and> map (tradeable s3_orders) [100, 101, 102] = [120, 250, 100]
    \<and> auction_price (auction_scenario None s3_orders) = Some 101
    \<and> fst (execute_call_auction (auction_scenario None s3_orders)) =
        [\<lparr>buy_order_id = ''b1'', sell_order_id = ''s1'', trade_price = 101,
          trade_quantity = 100\<rparr>,
         \<lparr>buy_order_id = ''b2'', sell_order_id = ''s1'', trade_price = 101,
          trade_quantity = 20\<rparr>,
         \<lparr>buy_order_id = ''b2'', sell_order_id = ''s2'', trade_price = 101,
          trade_quantity = 130\<rparr>]"
    by code_simp
  from general ex s3 show ?thesis by simp
qed

text \<open>
  The theorem at an auction with a tie. The reference price is 101; SELL s1 at 99 for 10
  and BUY b1 at 101 for 10 are buffered in the pre-open phase. Both candidate prices have
  the tradeable volume 10; 101 is the closer to the reference price and is the equilibrium
  price. The one trade is at 101, and 101 is the opening price.
\<close>

theorem C7_witness:
  "auction_orders (auction_scenario (Some 101) tie_orders) = tie_orders
 \<and> reference_price (auction_scenario (Some 101) tie_orders) = Some 101
 \<and> trading_phase (auction_scenario (Some 101) tie_orders) = PRE_OPEN
 \<and> map (tradeable tie_orders) [99, 101] = [10, 10]
 \<and> auction_price (auction_scenario (Some 101) tie_orders) = Some 101
 \<and> list_all (\<lambda>ord. tradeable tie_orders (price ord) \<le> tradeable tie_orders 101) tie_orders
 \<and> (case execute_call_auction (auction_scenario (Some 101) tie_orders) of
      (trades, e') \<Rightarrow>
         trades = [\<lparr>buy_order_id = ''b1'', sell_order_id = ''s1'', trade_price = 101,
                    trade_quantity = 10\<rparr>]
       \<and> (\<forall>t\<in>set trades. trade_price t = 101)
       \<and> trade_history e' = trades
       \<and> opening_price e' = Some 101)"
proof -
  define e where "e = auction_scenario (Some 101) tie_orders"
  have ev: "auction_orders e = tie_orders
      \<and> reference_price e = Some 101
      \<and> trading_phase e = PRE_OPEN
      \<and> trade_history e = []
      \<and> map (tradeable tie_orders) [99, 101] = [10, 10]
      \<and> auction_price e = Some 101
      \<and> fst (execute_call_auction e) =
          [\<lparr>buy_order_id = ''b1'', sell_order_id = ''s1'', trade_price = 101,
            trade_quantity = 10\<rparr>]"
    unfolding e_def by code_simp
  obtain trades e' where ex: "execute_call_auction e = (trades, e')"
    by (cases "execute_call_auction e") auto
  from C7_call_auction_equilibrium[of e] ex ev
  have g: "trade_history e' = trades"
     "\<forall>ord\<in>set tie_orders. tradeable tie_orders (price ord) \<le> tradeable tie_orders 101"
     "\<forall>t\<in>set trades. trade_price t = 101"
     "opening_price e' = Some 101"
    by simp_all
  from ev ex have tr: "trades = [\<lparr>buy_order_id = ''b1'', sell_order_id = ''s1'',
       trade_price = 101, trade_quantity = 10\<rparr>]" by simp
  show ?thesis using ev g tr ex unfolding e_def[symmetric] list_all_iff by simp
qed

end
